theory Spec2Isabelle
  imports Complex_Main
begin

section \<open>Conventions of the embedding\<close>

text \<open>
  The library is C++. A function that may throw returns the exception it raised, if any,
  together with the state of the object at the moment the call is left; every assignment
  that the source performs before a \<^verbatim>\<open>throw\<close> is therefore visible in the result.

  A \<^verbatim>\<open>float\<close> is modelled in two ways. \<^verbatim>\<open>ProgressBar\<close>, \<^verbatim>\<open>Button\<close> and the
  positioning pass of a frame, where a not-a-number or the rounding of a sum decides what
  the code does, compute in binary32 as defined below. The size to fit and the spacer pass
  of a frame compute in \<^typ>\<open>real\<close>: the values are the finite ones and rounding is not
  modelled, so the statements about these two are about the comparisons and the order of
  the arithmetic the code performs.
\<close>

datatype error =
    invalid_argument string  \<comment> \<open>\<^verbatim>\<open>std::invalid_argument\<close> with its message\<close>
  | out_of_range string      \<comment> \<open>\<^verbatim>\<open>std::out_of_range\<close> with its message\<close>
  | assertion_failure        \<comment> \<open>a failed \<^verbatim>\<open>assert\<close>\<close>

section \<open>Binary32 arithmetic\<close>

text \<open>
  A \<^verbatim>\<open>float\<close> is an IEEE 754 binary32 number: not-a-number, one of the two infinities,
  or a finite value, given by the real number it denotes. The sign of a zero is not
  represented; no function below divides by a float or reads a sign bit. Every operation
  is rounded to binary32 on its own, as a compiler does where \<^verbatim>\<open>FLT_EVAL_METHOD\<close> is 0.
\<close>

datatype float = NaN | NInf | PInf | Fin real

text \<open>
  Rounding is to nearest, ties to even, the default mode. A magnitude \<open>a\<close> is rounded on
  the grid of its binade: the exponent \<open>e\<close> between -126 and 127 with
  \<^verbatim>\<open>2^e <= a < 2^(e+1)\<close> (-126 below the normal range, 127 above it), where the grid
  step, the unit in the last place, is \<^verbatim>\<open>2^(e-23)\<close>, for a significand of 24 bits. A
  sum or product that rounds to a magnitude of \<^verbatim>\<open>2^128\<close> or more is an infinity.
\<close>

definition round_half_even :: "real \<Rightarrow> int" where
  "round_half_even t =
     (let n = \<lfloor>t\<rfloor>
      in if t - of_int n < 1 / 2 then n
         else if t - of_int n > 1 / 2 then n + 1
         else if even n then n else n + 1)"

fun binade_search :: "nat \<Rightarrow> real \<Rightarrow> int" where
  "binade_search 0 a = - 126"
| "binade_search (Suc n) a =
     (if 2 powi (int n - 125) \<le> a then int n - 125 else binade_search n a)"

definition binade :: "real \<Rightarrow> int" where
  "binade a = binade_search 253 a"

definition ulp :: "real \<Rightarrow> real" where
  "ulp a = 2 powi (binade a - 23)"

definition round_magnitude :: "real \<Rightarrow> real" where
  "round_magnitude a = of_int (round_half_even (a / ulp a)) * ulp a"

definition round32 :: "real \<Rightarrow> real" where
  "round32 x = sgn x * round_magnitude \<bar>x\<bar>"

definition to_float :: "real \<Rightarrow> float" where
  "to_float x =
     (let r = round32 x
      in if r \<ge> 2 ^ 128 then PInf else if r \<le> - (2 ^ 128) then NInf else Fin r)"

text \<open>
  The comparisons \<^verbatim>\<open><\<close>, \<^verbatim>\<open><=\<close> and \<^verbatim>\<open>>\<close>: every comparison with a not-a-number is
  false.
\<close>

fun flt :: "float \<Rightarrow> float \<Rightarrow> bool" where
  "flt (Fin a) (Fin b) = (a < b)"
| "flt NInf (Fin b) = True"
| "flt NInf PInf = True"
| "flt (Fin a) PInf = True"
| "flt a b = False"

fun fle :: "float \<Rightarrow> float \<Rightarrow> bool" where
  "fle (Fin a) (Fin b) = (a \<le> b)"
| "fle NInf (Fin b) = True"
| "fle NInf PInf = True"
| "fle (Fin a) PInf = True"
| "fle NInf NInf = True"
| "fle PInf PInf = True"
| "fle a b = False"

definition fgt :: "float \<Rightarrow> float \<Rightarrow> bool" where
  "fgt a b = flt b a"

text \<open>
  Negation, sum, difference and product. A not-a-number operand gives a not-a-number, as do
  the sum of the two infinities and the product of an infinity and zero.
\<close>

fun fneg :: "float \<Rightarrow> float" where
  "fneg NaN = NaN"
| "fneg NInf = PInf"
| "fneg PInf = NInf"
| "fneg (Fin a) = Fin (- a)"

fun fadd :: "float \<Rightarrow> float \<Rightarrow> float" where
  "fadd (Fin a) (Fin b) = to_float (a + b)"
| "fadd NaN b = NaN"
| "fadd a NaN = NaN"
| "fadd PInf NInf = NaN"
| "fadd NInf PInf = NaN"
| "fadd PInf b = PInf"
| "fadd a PInf = PInf"
| "fadd NInf b = NInf"
| "fadd a NInf = NInf"

definition fsub :: "float \<Rightarrow> float \<Rightarrow> float" where
  "fsub a b = fadd a (fneg b)"

fun fmul :: "float \<Rightarrow> float \<Rightarrow> float" where
  "fmul (Fin a) (Fin b) = to_float (a * b)"
| "fmul NaN b = NaN"
| "fmul a NaN = NaN"
| "fmul (Fin a) b = (if a = 0 then NaN else if (0 < a) = (b = PInf) then PInf else NInf)"
| "fmul a (Fin b) = (if b = 0 then NaN else if (0 < b) = (a = PInf) then PInf else NInf)"
| "fmul a b = (if a = b then PInf else NInf)"

text \<open>\<^verbatim>\<open>std::max(a, b)\<close> is \<^verbatim>\<open>(a < b) ? b : a\<close>.\<close>

definition fmax :: "float \<Rightarrow> float \<Rightarrow> float" where
  "fmax a b = (if flt a b then b else a)"

text \<open>
  The floats an operation can return: a finite one is a point of the grid, within the
  range.
\<close>

fun canonical :: "float \<Rightarrow> bool" where
  "canonical (Fin r) = (round32 r = r \<and> - (2 ^ 128) < r \<and> r < 2 ^ 128)"
| "canonical a = True"

section \<open>DrawRectangle\<close>

text \<open>
  Modelled from the spec: DrawRectangle, the drawable rectangle primitive of the common
  library, whose source is not part of the repository files. It is an external collaborator
  that stores the position and the size it is given; its colour plays no role here.
\<close>

record DrawRectangle =
  dr_x :: float
  dr_y :: float
  dr_width :: float
  dr_height :: float

definition dr_set_position :: "float \<Rightarrow> float \<Rightarrow> DrawRectangle \<Rightarrow> DrawRectangle" where
  "dr_set_position x y r = r\<lparr>dr_x := x, dr_y := y\<rparr>"

definition dr_set_size :: "float \<Rightarrow> float \<Rightarrow> DrawRectangle \<Rightarrow> DrawRectangle" where
  "dr_set_size w h r = r\<lparr>dr_width := w, dr_height := h\<rparr>"

section \<open>ProgressBar\<close>

record ProgressBar =
  pb_m_outer :: DrawRectangle
  pb_m_inner_front :: DrawRectangle
  pb_m_inner_back :: DrawRectangle
  m_fill_amount :: float
  pb_m_padding :: float

definition pb_width :: "ProgressBar \<Rightarrow> float" where
  "pb_width pb = dr_width (pb_m_outer pb)"

definition pb_height :: "ProgressBar \<Rightarrow> float" where
  "pb_height pb = dr_height (pb_m_outer pb)"

definition active_padding :: "ProgressBar \<Rightarrow> float" where
  "active_padding pb =
     (if flt (pb_width pb) (pb_m_padding pb) \<or> flt (pb_height pb) (pb_m_padding pb) then Fin 0
      else pb_m_padding pb)"

definition update_sizes_using_outer :: "ProgressBar \<Rightarrow> ProgressBar" where
  "update_sizes_using_outer pb =
     (let width = dr_width (pb_m_outer pb);
          height = dr_height (pb_m_outer pb);
          pad = active_padding pb;
          pb1 = pb\<lparr>pb_m_inner_back :=
                  dr_set_size (fsub width (fmul pad (Fin 2))) (fsub height (fmul pad (Fin 2)))
                    (pb_m_inner_back pb)\<rparr>
      in pb1\<lparr>pb_m_inner_front :=
               dr_set_size (fmul (fsub width (fmul pad (Fin 2))) (m_fill_amount pb1))
                 (fsub height (fmul pad (Fin 2))) (pb_m_inner_front pb1)\<rparr>)"

definition pb_set_size :: "float \<Rightarrow> float \<Rightarrow> ProgressBar \<Rightarrow> ProgressBar" where
  "pb_set_size w h pb =
     update_sizes_using_outer (pb\<lparr>pb_m_outer := dr_set_size w h (pb_m_outer pb)\<rparr>)"

definition FILL_OUT_OF_RANGE_MSG :: string where
  "FILL_OUT_OF_RANGE_MSG = ''ProgressBar::set_fill_amount: fill amount is not in range: [0 1].''"

definition set_fill_amount :: "float \<Rightarrow> ProgressBar \<Rightarrow> error option \<times> ProgressBar" where
  "set_fill_amount fill_amount pb =
     (if flt fill_amount (Fin 0) \<or> fgt fill_amount (Fin 1)
      then (Some (out_of_range FILL_OUT_OF_RANGE_MSG), pb)
      else let pb1 = pb\<lparr>m_fill_amount := fill_amount\<rparr>
           in (None, pb_set_size (pb_width pb1) (pb_height pb1) pb1))"

section \<open>Button\<close>

record Button =
  btn_m_outer :: DrawRectangle
  btn_m_inner :: DrawRectangle
  btn_m_padding :: float
  m_is_highlighted :: bool

text \<open>
  \<^verbatim>\<open>Button::width\<close> and \<^verbatim>\<open>Button::height\<close> are declared in the header, which is not
  among the repository files; \<^verbatim>\<open>set_size\<close> only hands their values to the hook
  \<^verbatim>\<open>on_size_changed\<close>, whose implementation in \<^verbatim>\<open>Button\<close> is empty, as is that of
  \<^verbatim>\<open>set_size_back\<close>.
\<close>

definition btn_width :: "Button \<Rightarrow> float" where
  "btn_width b = dr_width (btn_m_outer b)"

definition btn_height :: "Button \<Rightarrow> float" where
  "btn_height b = dr_height (btn_m_outer b)"

definition set_button_frame_size :: "float \<Rightarrow> float \<Rightarrow> Button \<Rightarrow> Button" where
  "set_button_frame_size width' height' b =
     (let b1 = b\<lparr>btn_m_outer := dr_set_size width' height' (btn_m_outer b)\<rparr>
      in b1\<lparr>btn_m_inner :=
              dr_set_size (fmax (fsub width' (fmul (btn_m_padding b1) (Fin 2))) (Fin 0))
                          (fmax (fsub height' (fmul (btn_m_padding b1) (Fin 2))) (Fin 0))
                          (btn_m_inner b1)\<rparr>)"

definition set_size_back :: "float \<Rightarrow> float \<Rightarrow> Button \<Rightarrow> Button" where
  "set_size_back w h b = b"

definition on_size_changed :: "float \<Rightarrow> float \<Rightarrow> Button \<Rightarrow> Button" where
  "on_size_changed old_width old_height b = b"

definition k_button_size_msg :: string where
  "k_button_size_msg =
     ''ksg::Button::set_size: width and height must be positive real numbers (which excludes zero).''"

definition btn_set_size :: "float \<Rightarrow> float \<Rightarrow> Button \<Rightarrow> error option \<times> Button" where
  "btn_set_size width' height' b =
     (if fle width' (Fin 0) \<or> fle height' (Fin 0)
      then (Some (invalid_argument k_button_size_msg), b)
      else let old_width = btn_width b; old_height = btn_height b;
               b1 = set_button_frame_size width' height' b;
               b2 = set_size_back width' height' b1
           in (None, on_size_changed old_width old_height b2))"

section \<open>Widget pointers and \<^verbatim>\<open>std::vector\<close>\<close>

text \<open>
  A \<^verbatim>\<open>Widget *\<close> is modelled by what it points to, in the block-and-offset style: a widget
  owned by the client (by the address of the object), the line separator member of the frame
  at some address, element \<open>i\<close> of the spacer buffer \<open>b\<close>, or nothing. Two pointers are
  equal exactly when they denote the same object, which is what \<^verbatim>\<open>==\<close> decides for
  pointers to live objects. The address one past the last element of a buffer of \<open>n\<close>
  elements, which a cursor into the buffer may hold, is \<open>Slot b n\<close>; in this model it is
  the address of no widget, so how the allocator lays objects out in memory plays no role.
\<close>

type_synonym addr = nat

datatype wptr =
    Null
  | Ext addr
  | Sep addr
  | Slot nat nat

fun is_slot :: "wptr \<Rightarrow> bool" where
  "is_slot (Slot b i) = True"
| "is_slot p = False"

fun ptr_inc :: "wptr \<Rightarrow> wptr" where
  "ptr_inc (Slot b i) = Slot b (Suc i)"
| "ptr_inc p = p"

text \<open>
  Modelled from the spec: HorizontalSpacer, declared in a header that is not among the
  repository files. It is the flex element of zero intrinsic size that is later assigned a
  computed width; a freshly constructed one has width zero.
\<close>

record HorizontalSpacer =
  hs_location :: "real \<times> real"
  hs_width :: real

definition new_HorizontalSpacer :: HorizontalSpacer where
  "new_HorizontalSpacer = \<lparr>hs_location = (0, 0), hs_width = 0\<rparr>"

text \<open>
  A \<^verbatim>\<open>std::vector\<close> is its buffer (an allocation number, 0 for no buffer), its capacity
  and its elements. The allocator is the number of the next buffer it hands out, so a new
  buffer differs from every buffer allocated before. \<^verbatim>\<open>reserve\<close> allocates exactly the
  capacity asked for and \<^verbatim>\<open>push_back\<close> on a full vector doubles it, as libstdc++ does; an
  insertion into a vector with room left never reallocates.
\<close>

record 'a vec =
  v_data :: nat
  v_capacity :: nat
  v_elems :: "'a list"

type_synonym allocator = nat

definition empty_vec :: "'a vec" where
  "empty_vec = \<lparr>v_data = 0, v_capacity = 0, v_elems = []\<rparr>"

definition vec_size :: "'a vec \<Rightarrow> nat" where
  "vec_size v = length (v_elems v)"

definition vec_reserve :: "nat \<Rightarrow> 'a vec \<times> allocator \<Rightarrow> 'a vec \<times> allocator" where
  "vec_reserve n s =
     (case s of (v, al) \<Rightarrow>
        if v_capacity v < n then (v\<lparr>v_data := al, v_capacity := n\<rparr>, Suc al) else (v, al))"

definition vec_push_back :: "'a \<Rightarrow> 'a vec \<times> allocator \<Rightarrow> 'a vec \<times> allocator" where
  "vec_push_back x s =
     (case s of (v, al) \<Rightarrow>
        if vec_size v < v_capacity v then (v\<lparr>v_elems := v_elems v @ [x]\<rparr>, al)
        else (\<lparr>v_data = al, v_capacity = vec_size v + max (vec_size v) 1,
               v_elems = v_elems v @ [x]\<rparr>, Suc al))"

definition vec_copy_back_inserter :: "'a list \<Rightarrow> 'a vec \<times> allocator \<Rightarrow> 'a vec \<times> allocator" where
  "vec_copy_back_inserter xs s = foldl (\<lambda>t x. vec_push_back x t) s xs"

section \<open>WidgetAdder\<close>

text \<open>
  Modelled from the spec: the style map, a dictionary from string keys to typed values whose
  declaration is not among the repository files.
\<close>

datatype StylesField = FloatField real | OtherField

type_synonym StyleMap = "string \<rightharpoonup> StylesField"

record WidgetAdder =
  wa_m_widgets :: "wptr list"
  wa_m_horz_spacers :: "HorizontalSpacer vec"
  m_the_line_sep :: wptr
  m_styles :: "StyleMap option"
  m_parent :: "addr option"

definition WidgetAdder_default :: WidgetAdder where
  "WidgetAdder_default =
     \<lparr>wa_m_widgets = [], wa_m_horz_spacers = empty_vec, m_the_line_sep = Null,
      m_styles = None, m_parent = None\<rparr>"

definition k_null_parent :: string where
  "k_null_parent =
     ''WidgetAdder::WidgetAdder: [library error] Parent must not be null, and line seperator must refer to something.''"

definition WidgetAdder_ctor ::
  "addr option \<Rightarrow> StyleMap option \<Rightarrow> wptr \<Rightarrow> error + WidgetAdder" where
  "WidgetAdder_ctor frame' styles' sep' =
     (if frame' = None \<or> sep' = Null then Inl (invalid_argument k_null_parent)
      else Inr (WidgetAdder_default\<lparr>m_the_line_sep := sep', m_styles := styles',
                                    m_parent := frame'\<rparr>))"

definition add :: "addr \<Rightarrow> WidgetAdder \<Rightarrow> WidgetAdder" where
  "add widget a = a\<lparr>wa_m_widgets := wa_m_widgets a @ [Ext widget]\<rparr>"

text \<open>
  The loop of \<^verbatim>\<open>add_horizontal_spacer\<close> that revalidates the pointers: it walks the widget
  list with the two cursors \<^verbatim>\<open>new_itr\<close> and \<^verbatim>\<open>old_itr\<close> and returns the patched list with
  the final value of \<^verbatim>\<open>new_itr\<close>.
\<close>

fun revalidate :: "wptr list \<Rightarrow> wptr \<Rightarrow> wptr \<Rightarrow> wptr list \<times> wptr" where
  "revalidate [] new_itr old_itr = ([], new_itr)"
| "revalidate (widget_ptr # ws) new_itr old_itr =
     (if widget_ptr = old_itr
      then (case revalidate ws (ptr_inc new_itr) (ptr_inc old_itr) of
              (ws', e) \<Rightarrow> (new_itr # ws', e))
      else (case revalidate ws new_itr old_itr of
              (ws', e) \<Rightarrow> (widget_ptr # ws', e)))"

definition add_horizontal_spacer ::
  "WidgetAdder \<times> allocator \<Rightarrow> error option \<times> WidgetAdder \<times> allocator" where
  "add_horizontal_spacer s =
     (case s of (a, al) \<Rightarrow>
        let grown =
          (if vec_size (wa_m_horz_spacers a) = v_capacity (wa_m_horz_spacers a)
              \<and> v_elems (wa_m_horz_spacers a) \<noteq> []
           then
             (case vec_copy_back_inserter (v_elems (wa_m_horz_spacers a))
                     (vec_reserve (1 + v_capacity (wa_m_horz_spacers a) * 2) (empty_vec, al)) of
                (new_spacer_cont, al1) \<Rightarrow>
                  (case revalidate (wa_m_widgets a) (Slot (v_data new_spacer_cont) 0)
                          (Slot (v_data (wa_m_horz_spacers a)) 0) of
                     (ws', new_itr) \<Rightarrow>
                       (if new_itr = Slot (v_data new_spacer_cont) (vec_size new_spacer_cont)
                        then None else Some assertion_failure,
                        a\<lparr>wa_m_widgets := ws', wa_m_horz_spacers := new_spacer_cont\<rparr>, al1)))
           else (None, a, al))
        in (case grown of
              (Some e, a1, al1) \<Rightarrow> (Some e, a1, al1)
            | (None, a1, al1) \<Rightarrow>
                (case vec_push_back new_HorizontalSpacer (wa_m_horz_spacers a1, al1) of
                   (sp, al2) \<Rightarrow>
                     (None,
                      a1\<lparr>wa_m_widgets := wa_m_widgets a1 @ [Slot (v_data sp) (vec_size sp - 1)],
                         wa_m_horz_spacers := sp\<rparr>, al2))))"

definition add_line_seperator :: "WidgetAdder \<Rightarrow> WidgetAdder" where
  "add_line_seperator a = a\<lparr>wa_m_widgets := wa_m_widgets a @ [m_the_line_sep a]\<rparr>"

text \<open>A sequence of calls on one adder, stopped by the first failure.\<close>

datatype adder_call = Add addr | AddHorizontalSpacer | AddLineSeperator

fun run_calls ::
  "adder_call list \<Rightarrow> WidgetAdder \<times> allocator \<Rightarrow> error option \<times> WidgetAdder \<times> allocator" where
  "run_calls [] (a, al) = (None, a, al)"
| "run_calls (Add w # cs) (a, al) = run_calls cs (add w a, al)"
| "run_calls (AddLineSeperator # cs) (a, al) = run_calls cs (add_line_seperator a, al)"
| "run_calls (AddHorizontalSpacer # cs) (a, al) =
     (case add_horizontal_spacer (a, al) of
        (Some e, s) \<Rightarrow> (Some e, s)
      | (None, s) \<Rightarrow> run_calls cs s)"

section \<open>WidgetAdder: what the adder maintains\<close>

text \<open>
  Moving a pointer from the buffer \<open>old\<close> to the same slot of the buffer \<open>new\<close>; every
  other pointer is left as it is.
\<close>

definition relocate :: "nat \<Rightarrow> nat \<Rightarrow> wptr \<Rightarrow> wptr" where
  "relocate old new p = (case p of Slot b i \<Rightarrow> if b = old then Slot new i else p | _ \<Rightarrow> p)"

text \<open>
  The state an adder is in between calls: the storage does not exceed its capacity, its
  buffer was handed out by the allocator, the separator is neither a spacer nor null, no
  entry of the widget list is null, and the entries that point to spacers are, in order, the
  addresses of the elements of the storage.
\<close>

definition adder_inv :: "WidgetAdder \<times> allocator \<Rightarrow> bool" where
  "adder_inv s = (case s of (a, al) \<Rightarrow>
      vec_size (wa_m_horz_spacers a) \<le> v_capacity (wa_m_horz_spacers a) \<and>
      v_data (wa_m_horz_spacers a) < al \<and>
      \<not> is_slot (m_the_line_sep a) \<and> m_the_line_sep a \<noteq> Null \<and>
      Null \<notin> set (wa_m_widgets a) \<and>
      filter is_slot (wa_m_widgets a) =
        map (Slot (v_data (wa_m_horz_spacers a))) [0..<vec_size (wa_m_horz_spacers a)])"

text \<open>What one call of \<^verbatim>\<open>add_horizontal_spacer\<close> does to such a state.\<close>

definition ahs_post :: "WidgetAdder \<times> allocator \<Rightarrow> WidgetAdder \<times> allocator \<Rightarrow> bool" where
  "ahs_post s t = (case (s, t) of ((a, al), (a', al')) \<Rightarrow>
      wa_m_widgets a' =
        map (relocate (v_data (wa_m_horz_spacers a)) (v_data (wa_m_horz_spacers a'))) (wa_m_widgets a)
          @ [Slot (v_data (wa_m_horz_spacers a')) (vec_size (wa_m_horz_spacers a))] \<and>
      v_elems (wa_m_horz_spacers a') = v_elems (wa_m_horz_spacers a) @ [new_HorizontalSpacer] \<and>
      m_the_line_sep a' = m_the_line_sep a \<and> m_styles a' = m_styles a \<and>
      m_parent a' = m_parent a \<and>
      (vec_size (wa_m_horz_spacers a) = v_capacity (wa_m_horz_spacers a)
         \<and> v_elems (wa_m_horz_spacers a) \<noteq> [] \<longrightarrow>
       v_capacity (wa_m_horz_spacers a') = 2 * v_capacity (wa_m_horz_spacers a) + 1 \<and>
       v_data (wa_m_horz_spacers a') \<noteq> v_data (wa_m_horz_spacers a)))"

section \<open>Frame: the objects\<close>

text \<open>
  Modelled from the spec: FrameBorder, the border and title sub-object of a frame, whose
  source is not among the repository files. The record holds the values its accessors
  \<^verbatim>\<open>location\<close>, \<^verbatim>\<open>width\<close>, \<^verbatim>\<open>height\<close>, \<^verbatim>\<open>widget_start\<close> (the top-left interior
  corner after border and title), \<^verbatim>\<open>width_available_for_widgets\<close> (the interior width
  budget) and \<^verbatim>\<open>title_width_accommodation\<close> return.
\<close>

record FrameBorder =
  fb_location :: "real \<times> real"
  fb_width :: real
  fb_height :: real
  fb_widget_start :: "real \<times> real"
  fb_width_available_for_widgets :: real
  fb_title_width_accommodation :: real

text \<open>
  The line separator of a frame is the member \<^verbatim>\<open>m_the_line_seperator\<close>; its address is
  \<^term>\<open>Sep this\<close> for the frame at address \<open>this\<close>. The focus handler takes no part in
  what follows and is left out.
\<close>

record Frame =
  m_widgets :: "wptr list"
  m_padding :: real
  m_horz_spacers :: "HorizontalSpacer vec"
  m_border :: FrameBorder

text \<open>
  Every other widget of the client is known to a frame through the virtual functions
  \<^verbatim>\<open>width\<close> and \<^verbatim>\<open>height\<close> only; a leaf holds what they return.
\<close>

record Leaf =
  lf_width :: real
  lf_height :: real

datatype widget_obj = FrameObj Frame | LeafObj Leaf

type_synonym heap = "addr \<Rightarrow> widget_obj"

text \<open>\<^verbatim>\<open>dynamic_cast<Frame *>\<close>: the frame a widget pointer refers to, if it refers to one.\<close>

definition as_frame :: "heap \<Rightarrow> wptr \<Rightarrow> Frame option" where
  "as_frame h p =
     (case p of
        Ext a \<Rightarrow> (case h a of FrameObj g \<Rightarrow> Some g | LeafObj l \<Rightarrow> None)
      | _ \<Rightarrow> None)"

text \<open>
  \<^verbatim>\<open>Frame::contains\<close> recurses through the frames of the widget list. On a cyclic
  structure the recursion does not return, which is the value \<open>None\<close>.
\<close>

partial_function (option) contains_loop :: "heap \<Rightarrow> wptr list \<Rightarrow> wptr \<Rightarrow> bool option" where
  "contains_loop h ws wp =
     (case ws of
        [] \<Rightarrow> Some False
      | widget # rest \<Rightarrow>
          if widget = wp then Some True
          else (case as_frame h widget of
                  Some frame \<Rightarrow>
                    Option.bind (contains_loop h (m_widgets frame) wp)
                      (\<lambda>found. if found then Some True else contains_loop h rest wp)
                | None \<Rightarrow> contains_loop h rest wp))"

declare contains_loop.simps [code]

definition contains :: "heap \<Rightarrow> Frame \<Rightarrow> wptr \<Rightarrow> bool option" where
  "contains h f wp = contains_loop h (m_widgets f) wp"

definition check_invarients :: "Frame \<Rightarrow> bool" where
  "check_invarients f \<longleftrightarrow> fb_width (m_border f) \<ge> 0 \<and> fb_height (m_border f) \<ge> 0"

definition begin_adding_widgets :: "addr \<Rightarrow> StyleMap option \<Rightarrow> error + WidgetAdder" where
  "begin_adding_widgets this styles = WidgetAdder_ctor (Some this) styles (Sep this)"

section \<open>Frame: committing a widget list\<close>

definition k_must_know_line_sep :: string where
  "k_must_know_line_sep =
     ''Frame::finalize_widgets: caller must know the line seperator to call this function. This is meant to be called by a Widget Adder only.''"

definition k_cannot_contain_this :: string where
  "k_cannot_contain_this = ''Frame::finalize_widgets: This frame may not contain itself.''"

text \<open>
  The scan of the incoming list: \<open>Some True\<close> when some frame of the list contains
  \<open>this\<close>, which is where the source throws.
\<close>

fun scan_contains_this :: "heap \<Rightarrow> wptr list \<Rightarrow> addr \<Rightarrow> bool option" where
  "scan_contains_this h [] this = Some False"
| "scan_contains_this h (widget # rest) this =
     (case as_frame h widget of
        Some frame_widget \<Rightarrow>
          (case contains h frame_widget (Ext this) of
             None \<Rightarrow> None
           | Some True \<Rightarrow> Some True
           | Some False \<Rightarrow> scan_contains_this h rest this)
      | None \<Rightarrow> scan_contains_this h rest this)"

text \<open>
  After the commit \<^verbatim>\<open>finalize_widgets\<close> calls \<^verbatim>\<open>Frame::set_style\<close> and the geometry pass
  \<^verbatim>\<open>finalize_widgets()\<close> when a style map was supplied. Both run virtual functions of the
  client's widgets and functions of the border whose code is not among the repository
  files, so they are parameters here: each takes the frame's address and the heap and gives
  the exception it raised, if any, with the heap it left, or nothing when it does not return.
\<close>

record collaborators =
  set_style_impl :: "StyleMap \<Rightarrow> addr \<Rightarrow> heap \<Rightarrow> (error option \<times> heap) option"
  finalize_geometry_impl :: "addr \<Rightarrow> heap \<Rightarrow> (error option \<times> heap) option"

definition check_invarients_at :: "addr \<Rightarrow> heap \<Rightarrow> error option \<times> heap" where
  "check_invarients_at this h =
     (case h this of
        FrameObj f \<Rightarrow> (if check_invarients f then None else Some assertion_failure, h)
      | LeafObj l \<Rightarrow> (None, h))"

definition commit_widgets :: "addr \<Rightarrow> wptr list \<Rightarrow> HorizontalSpacer vec \<Rightarrow> heap \<Rightarrow> heap" where
  "commit_widgets this widgets spacers h =
     (case h this of
        FrameObj f \<Rightarrow> h(this := FrameObj (f\<lparr>m_widgets := widgets, m_horz_spacers := spacers\<rparr>))
      | LeafObj l \<Rightarrow> h)"

definition finalize_widgets ::
  "collaborators \<Rightarrow> addr \<Rightarrow> wptr list \<Rightarrow> HorizontalSpacer vec \<Rightarrow> wptr \<Rightarrow> StyleMap option
     \<Rightarrow> heap \<Rightarrow> (error option \<times> heap) option" where
  "finalize_widgets V this widgets spacers the_line_sep styles h =
     (case h this of
        LeafObj l \<Rightarrow> None
      | FrameObj f \<Rightarrow>
          if the_line_sep \<noteq> Sep this then Some (Some (invalid_argument k_must_know_line_sep), h)
          else (case scan_contains_this h widgets this of
                  None \<Rightarrow> None
                | Some True \<Rightarrow> Some (Some (invalid_argument k_cannot_contain_this), h)
                | Some False \<Rightarrow>
                    let h1 = commit_widgets this widgets spacers h in
                    (case styles of
                       None \<Rightarrow> Some (check_invarients_at this h1)
                     | Some smap \<Rightarrow>
                         (case set_style_impl V smap this h1 of
                            None \<Rightarrow> None
                          | Some (Some e, h2) \<Rightarrow> Some (Some e, h2)
                          | Some (None, h2) \<Rightarrow>
                              (case finalize_geometry_impl V this h2 of
                                 None \<Rightarrow> None
                               | Some (Some e, h3) \<Rightarrow> Some (Some e, h3)
                               | Some (None, h3) \<Rightarrow> Some (check_invarients_at this h3))))))"

text \<open>
  The destructor of the adder. \<open>uncaught_exceptions\<close> is the value
  \<^verbatim>\<open>std::uncaught_exceptions()\<close> returns when the destructor runs.
\<close>

definition WidgetAdder_dtor ::
  "collaborators \<Rightarrow> nat \<Rightarrow> WidgetAdder \<Rightarrow> heap \<Rightarrow> (error option \<times> heap) option" where
  "WidgetAdder_dtor V uncaught_exceptions a h =
     (if uncaught_exceptions > 0 then Some (None, h)
      else (case m_parent a of
              None \<Rightarrow> Some (None, h)
            | Some parent \<Rightarrow>
                finalize_widgets V parent (wa_m_widgets a) (wa_m_horz_spacers a)
                  (m_the_line_sep a) (m_styles a) h))"

section \<open>Frame: what the layout reads\<close>

text \<open>
  \<^verbatim>\<open>is_horizontal_spacer\<close> tests whether the address lies between the first and the last
  element of the frame's spacer storage: the pointer is into that buffer, at an offset below
  its size.
\<close>

definition is_horizontal_spacer :: "Frame \<Rightarrow> wptr \<Rightarrow> bool" where
  "is_horizontal_spacer f widget =
     (if v_elems (m_horz_spacers f) = [] then False
      else (case widget of
              Slot b i \<Rightarrow> b = v_data (m_horz_spacers f) \<and> i < vec_size (m_horz_spacers f)
            | _ \<Rightarrow> False))"

definition is_line_seperator :: "addr \<Rightarrow> wptr \<Rightarrow> bool" where
  "is_line_seperator this widget \<longleftrightarrow> widget = Sep this"

text \<open>
  The virtual \<^verbatim>\<open>width\<close> and \<^verbatim>\<open>height\<close> of the widget a pointer refers to. A frame
  answers with its border's size, a leaf with what it holds, a spacer of the frame with its
  assigned width and no height. Modelled from the spec: a line separator carries no size.
  A pointer that refers to no live widget (null, or into a buffer that is not the frame's
  storage) has no defined reading in C++; the model reads 0 there, and the statements below
  are about lists without such pointers.
\<close>

definition widget_width :: "heap \<Rightarrow> Frame \<Rightarrow> wptr \<Rightarrow> real" where
  "widget_width h f p =
     (case p of
        Ext a \<Rightarrow> (case h a of FrameObj g \<Rightarrow> fb_width (m_border g) | LeafObj l \<Rightarrow> lf_width l)
      | Slot b i \<Rightarrow>
          if is_horizontal_spacer f p then hs_width (v_elems (m_horz_spacers f) ! i) else 0
      | _ \<Rightarrow> 0)"

definition widget_height :: "heap \<Rightarrow> Frame \<Rightarrow> wptr \<Rightarrow> real" where
  "widget_height h f p =
     (case p of
        Ext a \<Rightarrow> (case h a of FrameObj g \<Rightarrow> fb_height (m_border g) | LeafObj l \<Rightarrow> lf_height l)
      | _ \<Rightarrow> 0)"

definition get_widget_advance :: "heap \<Rightarrow> addr \<Rightarrow> Frame \<Rightarrow> wptr \<Rightarrow> real" where
  "get_widget_advance h this f widget_ptr =
     (let is_special_widget = is_line_seperator this widget_ptr \<or> is_horizontal_spacer f widget_ptr
      in widget_width h f widget_ptr + (if is_special_widget then 0 else m_padding f))"

section \<open>Frame: the size to fit\<close>

text \<open>
  The loop of \<^verbatim>\<open>compute_size_to_fit\<close> over the widget list, on the five accumulators
  \<^verbatim>\<open>total_width\<close>, \<^verbatim>\<open>line_width\<close>, \<^verbatim>\<open>total_height\<close>, \<^verbatim>\<open>line_height\<close> and
  \<^verbatim>\<open>pad_fix\<close>, and the statements after the loop. A frame of the list whose width and
  height are both zero is asked for its own size to fit, so the function recurses through
  the heap and may not return on a cyclic one. The assertion that the pointer is not null is
  a branch; the assertions \<^verbatim>\<open>is_real\<close> hold of every real number.
\<close>

type_synonym fit_state = "real \<times> real \<times> real \<times> real \<times> real"

definition fit_finish :: "Frame \<Rightarrow> fit_state \<Rightarrow> real \<times> real" where
  "fit_finish f st =
     (case st of (total_width, line_width, total_height, line_height, pad_fix) \<Rightarrow>
        let (total_width1, total_height1) =
              (if line_width \<noteq> 0
               then (max total_width line_width, total_height + (line_height + m_padding f))
               else (total_width, total_height));
            total_height2 =
              total_height1 + (snd (fb_widget_start (m_border f)) - snd (fb_location (m_border f)));
            total_width2 =
              max total_width1 (fb_title_width_accommodation (m_border f) + m_padding f * 2)
        in if m_widgets f \<noteq> []
           then (total_width2 + m_padding f * 3, total_height2 + m_padding f * 3)
           else (total_width2, total_height2))"

partial_function (option) fit_loop ::
  "heap \<Rightarrow> addr \<Rightarrow> Frame \<Rightarrow> wptr list \<Rightarrow> fit_state \<Rightarrow> (error + fit_state) option" where
  "fit_loop h this f ws st =
     (case ws of
        [] \<Rightarrow> Some (Inr st)
      | widget_ptr # rest \<Rightarrow>
          (case st of (total_width, line_width, total_height, line_height, pad_fix) \<Rightarrow>
             if widget_ptr = Null then Some (Inl assertion_failure)
             else if is_horizontal_spacer f widget_ptr
             then fit_loop h this f rest
                    (total_width, line_width, total_height, line_height, - m_padding f)
             else if is_line_seperator this widget_ptr
             then fit_loop h this f rest
                    (max line_width total_width, 0, total_height + (line_height + m_padding f), 0, 0)
             else
               (case (case widget_ptr of
                        Ext a \<Rightarrow>
                          (case h a of
                             FrameObj g \<Rightarrow>
                               if widget_width h f widget_ptr = 0 \<and> widget_height h f widget_ptr = 0
                               then Some (a, g) else None
                           | LeafObj l \<Rightarrow> None)
                      | _ \<Rightarrow> None) of
                  Some (a, widget_as_frame) \<Rightarrow>
                    Option.bind
                      (fit_loop h a widget_as_frame (m_widgets widget_as_frame) (0, 0, 0, 0, 0))
                      (\<lambda>r. case r of
                              Inl e \<Rightarrow> Some (Inl e)
                            | Inr st' \<Rightarrow>
                                fit_loop h this f rest
                                  (total_width,
                                   line_width + (get_widget_advance h this f widget_ptr + pad_fix),
                                   total_height,
                                   max line_height (snd (fit_finish widget_as_frame st')),
                                   0))
                | None \<Rightarrow>
                    fit_loop h this f rest
                      (total_width,
                       line_width + (get_widget_advance h this f widget_ptr + pad_fix),
                       total_height,
                       max line_height (widget_height h f widget_ptr),
                       0))))"

declare fit_loop.simps [code]

definition compute_size_to_fit :: "heap \<Rightarrow> addr \<Rightarrow> Frame \<Rightarrow> (error + real \<times> real) option" where
  "compute_size_to_fit h this f =
     map_option (map_sum id (fit_finish f)) (fit_loop h this f (m_widgets f) (0, 0, 0, 0, 0))"

section \<open>Frame: the spacer widths\<close>

text \<open>
  An iterator into the widget list is the index it stands at; the range between two
  iterators is the part of the list between the two indices.
\<close>

definition range_of :: "'a list \<Rightarrow> nat \<Rightarrow> nat \<Rightarrow> 'a list" where
  "range_of ws beg end' = take (end' - beg) (drop beg ws)"

text \<open>
  Modelled from the spec: \<^verbatim>\<open>HorizontalSpacer::set_width\<close> stores the width it is given.
\<close>

definition set_width :: "wptr \<Rightarrow> real \<Rightarrow> Frame \<Rightarrow> Frame" where
  "set_width p w f =
     (case p of
        Slot b i \<Rightarrow>
          f\<lparr>m_horz_spacers := (m_horz_spacers f)
               \<lparr>v_elems := (v_elems (m_horz_spacers f))
                   [i := (v_elems (m_horz_spacers f) ! i)\<lparr>hs_width := w\<rparr>]\<rparr>\<rparr>
      | _ \<Rightarrow> f)"

definition set_horz_spacer_widths :: "nat \<Rightarrow> nat \<Rightarrow> real \<Rightarrow> real \<Rightarrow> Frame \<Rightarrow> nat \<times> Frame" where
  "set_horz_spacer_widths beg end' left_over_space padding f =
     (let horz_spacer_count =
            length (filter (is_horizontal_spacer f) (range_of (m_widgets f) beg end'))
      in if horz_spacer_count = 0 then (end', f)
         else let width_per_spacer = max 0 (left_over_space / real horz_spacer_count - padding)
              in (end',
                  foldl (\<lambda>g jtr. if \<not> is_horizontal_spacer g jtr then g
                                  else set_width jtr width_per_spacer g)
                    f (range_of (m_widgets f) beg end')))"

text \<open>
  The loop of \<^verbatim>\<open>update_horizontal_spacers\<close>: \<open>itr\<close> is the index of the widget at the
  head of the remaining list; the state is \<^verbatim>\<open>x\<close>, \<^verbatim>\<open>pad_fix\<close>, \<^verbatim>\<open>line_begin\<close> and the
  frame, whose spacers the loop resizes.
\<close>

fun uhs_loop ::
  "heap \<Rightarrow> addr \<Rightarrow> real \<Rightarrow> nat \<Rightarrow> wptr list \<Rightarrow> real \<times> real \<times> nat \<times> Frame
     \<Rightarrow> real \<times> real \<times> nat \<times> Frame" where
  "uhs_loop h this k_horz_space itr [] st = st"
| "uhs_loop h this k_horz_space itr (widget_ptr # rest) (x, pad_fix, line_begin, f) =
     (if is_horizontal_spacer f widget_ptr
      then uhs_loop h this k_horz_space (Suc itr) rest (x + pad_fix, 0, line_begin, f)
      else let horz_step = get_widget_advance h this f widget_ptr
           in if x + horz_step > k_horz_space \<or> is_line_seperator this widget_ptr
              then (case set_horz_spacer_widths line_begin itr (max (k_horz_space - x) 0)
                           (m_padding f) f of
                      (line_begin', f') \<Rightarrow>
                        uhs_loop h this k_horz_space (Suc itr) rest
                          (0 + horz_step, 0, line_begin', f'))
              else uhs_loop h this k_horz_space (Suc itr) rest
                     (x + horz_step, - m_padding f, line_begin, f))"

text \<open>
  A failed assertion aborts the program, so it is reported without a state: the assertion on
  the interior width, and the one that no pointer of the list is null.
\<close>

definition update_horizontal_spacers :: "heap \<Rightarrow> addr \<Rightarrow> Frame \<Rightarrow> error + Frame" where
  "update_horizontal_spacers h this f =
     (let k_horz_space = fb_width_available_for_widgets (m_border f)
      in if \<not> k_horz_space \<ge> 0 \<or> Null \<in> set (m_widgets f) then Inl assertion_failure
         else (case uhs_loop h this k_horz_space 0 (m_widgets f) (0, 0, 0, f) of
                 (x, pad_fix, line_begin, f') \<Rightarrow>
                   if line_begin = length (m_widgets f') then Inr f'
                   else Inr (snd (set_horz_spacer_widths line_begin (length (m_widgets f'))
                                    (max (k_horz_space - x) 0) (m_padding f') f'))))"

section \<open>Frame: the positioning pass\<close>

text \<open>
  The numbers the positioning pass reads, as the floats they are: the frame's padding, the
  values of the border's accessors, and for every widget pointer what the virtual
  \<^verbatim>\<open>width\<close> and \<^verbatim>\<open>height\<close> of the widget return (for a spacer of the frame, the width
  the spacer pass gave it). The frame itself contributes the widget list and the spacer
  storage, by which the pointers are classified.
\<close>

record readings =
  rd_padding :: float
  rd_location :: "float \<times> float"
  rd_width :: float
  rd_widget_start :: "float \<times> float"
  rd_width_available_for_widgets :: float
  rd_widget_width :: "wptr \<Rightarrow> float"
  rd_widget_height :: "wptr \<Rightarrow> float"

text \<open>The readings of a frame of the heap, whose numbers are finite.\<close>

definition readings_of :: "heap \<Rightarrow> Frame \<Rightarrow> readings" where
  "readings_of h f =
     \<lparr>rd_padding = Fin (m_padding f),
      rd_location = (Fin (fst (fb_location (m_border f))), Fin (snd (fb_location (m_border f)))),
      rd_width = Fin (fb_width (m_border f)),
      rd_widget_start =
        (Fin (fst (fb_widget_start (m_border f))), Fin (snd (fb_widget_start (m_border f)))),
      rd_width_available_for_widgets = Fin (fb_width_available_for_widgets (m_border f)),
      rd_widget_width = (\<lambda>w. Fin (widget_width h f w)),
      rd_widget_height = (\<lambda>w. Fin (widget_height h f w))\<rparr>"

text \<open>\<^verbatim>\<open>get_widget_advance\<close>, in binary32.\<close>

definition get_widget_advance_f :: "addr \<Rightarrow> Frame \<Rightarrow> readings \<Rightarrow> wptr \<Rightarrow> float" where
  "get_widget_advance_f this f rd widget_ptr =
     (let is_special_widget = is_line_seperator this widget_ptr \<or> is_horizontal_spacer f widget_ptr
      in fadd (rd_widget_width rd widget_ptr) (if is_special_widget then Fin 0 else rd_padding rd))"

text \<open>
  The loop of \<^verbatim>\<open>finalize_widgets()\<close> that places the widgets, on the locals \<^verbatim>\<open>x\<close>,
  \<^verbatim>\<open>y\<close>, \<^verbatim>\<open>line_height\<close> and \<^verbatim>\<open>pad_fix\<close>. \<^verbatim>\<open>set_location\<close> is a virtual function of
  the widget; the pass is modelled by the calls it makes: the widget and the coordinates it
  is given, in order.
\<close>

fun place_loop ::
  "addr \<Rightarrow> Frame \<Rightarrow> readings \<Rightarrow> float \<Rightarrow> float \<Rightarrow> wptr list \<Rightarrow> float \<times> float \<times> float \<times> float
     \<Rightarrow> (wptr \<times> float \<times> float) list" where
  "place_loop this f rd start_x k_right_limit [] st = []"
| "place_loop this f rd start_x k_right_limit (widget_ptr # rest) (x, y, line_height, pad_fix) =
     (if is_line_seperator this widget_ptr
      then place_loop this f rd start_x k_right_limit rest
             (start_x, fadd y (fadd line_height (rd_padding rd)), Fin 0, Fin 0)
      else (case (if fgt (fadd x (get_widget_advance_f this f rd widget_ptr)) k_right_limit
                  then (start_x, fadd y (fadd line_height (rd_padding rd)), Fin 0, Fin 0)
                  else (x, y, line_height, pad_fix)) of
              (x1, y1, line_height1, pad_fix1) \<Rightarrow>
                let x2 = (if is_horizontal_spacer f widget_ptr then fadd x1 pad_fix1 else x1)
                in (widget_ptr, x2, y1) #
                   place_loop this f rd start_x k_right_limit rest
                     (fadd x2 (get_widget_advance_f this f rd widget_ptr), y1,
                      fmax (rd_widget_height rd widget_ptr) line_height1,
                      fneg (rd_padding rd))))"

definition position_widgets ::
  "addr \<Rightarrow> Frame \<Rightarrow> readings \<Rightarrow> error + (wptr \<times> float \<times> float) list" where
  "position_widgets this f rd =
     (let start_x = fadd (fst (rd_widget_start rd)) (rd_padding rd);
          y = fadd (snd (rd_widget_start rd)) (rd_padding rd);
          k_right_limit = fadd (fst (rd_location rd)) (rd_width rd)
      in if Null \<in> set (m_widgets f) then Inl assertion_failure
         else Inr (place_loop this f rd start_x k_right_limit (m_widgets f)
                     (start_x, y, Fin 0, Fin 0)))"

text \<open>
  The total advance of the frame's widgets as the pass accumulates it: the starting cursor
  and the advances of the widgets, summed in the order of the list, every sum rounded.
\<close>

definition accumulated_advance :: "addr \<Rightarrow> Frame \<Rightarrow> readings \<Rightarrow> float" where
  "accumulated_advance this f rd =
     foldl fadd (fadd (fst (rd_widget_start rd)) (rd_padding rd))
       (map (get_widget_advance_f this f rd) (m_widgets f))"

section \<open>Frame: the lines of the spacer pass\<close>

text \<open>
  The calls of \<^verbatim>\<open>set_horz_spacer_widths\<close> that \<^verbatim>\<open>update_horizontal_spacers\<close> makes, in
  order: each closes a line, given by the range of the widget list it covers and the value
  of \<^verbatim>\<open>x\<close>, the used width, at the call. The function follows the control flow of the
  loop and leaves the spacers alone.
\<close>

fun uhs_lines ::
  "heap \<Rightarrow> addr \<Rightarrow> Frame \<Rightarrow> real \<Rightarrow> nat \<Rightarrow> wptr list \<Rightarrow> real \<times> real \<times> nat
     \<Rightarrow> (nat \<times> nat \<times> real) list \<times> real \<times> real \<times> nat" where
  "uhs_lines h this f k_horz_space itr [] st = ([], st)"
| "uhs_lines h this f k_horz_space itr (widget_ptr # rest) (x, pad_fix, line_begin) =
     (if is_horizontal_spacer f widget_ptr
      then uhs_lines h this f k_horz_space (Suc itr) rest (x + pad_fix, 0, line_begin)
      else let horz_step = get_widget_advance h this f widget_ptr
           in if x + horz_step > k_horz_space \<or> is_line_seperator this widget_ptr
              then (case uhs_lines h this f k_horz_space (Suc itr) rest (0 + horz_step, 0, itr) of
                      (ls, fin) \<Rightarrow> ((line_begin, itr, x) # ls, fin))
              else uhs_lines h this f k_horz_space (Suc itr) rest
                     (x + horz_step, - m_padding f, line_begin))"

definition spacer_lines :: "heap \<Rightarrow> addr \<Rightarrow> Frame \<Rightarrow> (nat \<times> nat \<times> real) list" where
  "spacer_lines h this f =
     (case uhs_lines h this f (fb_width_available_for_widgets (m_border f)) 0 (m_widgets f)
             (0, 0, 0) of
        (ls, x, pad_fix, line_begin) \<Rightarrow>
          if line_begin = length (m_widgets f) then ls
          else ls @ [(line_begin, length (m_widgets f), x)])"

text \<open>
  A frame as an adder hands it over: no null pointer in the widget list, and the entries
  that point to spacers are, in order, the addresses of the elements of the storage.
\<close>

definition frame_wf :: "Frame \<Rightarrow> bool" where
  "frame_wf f \<longleftrightarrow>
     Null \<notin> set (m_widgets f) \<and>
     filter is_slot (m_widgets f) =
       map (Slot (v_data (m_horz_spacers f))) [0..<vec_size (m_horz_spacers f)]"

text \<open>Two states of a frame that differ at most in the contents of the spacers.\<close>

definition same_shape :: "Frame \<Rightarrow> Frame \<Rightarrow> bool" where
  "same_shape f g \<longleftrightarrow>
     m_widgets g = m_widgets f \<and> m_padding g = m_padding f \<and> m_border g = m_border f \<and>
     v_data (m_horz_spacers g) = v_data (m_horz_spacers f) \<and>
     v_capacity (m_horz_spacers g) = v_capacity (m_horz_spacers f) \<and>
     length (v_elems (m_horz_spacers g)) = length (v_elems (m_horz_spacers f))"

definition apply_line :: "real \<Rightarrow> Frame \<Rightarrow> nat \<times> nat \<times> real \<Rightarrow> Frame" where
  "apply_line k_horz_space g l =
     (case l of (b, e, x) \<Rightarrow>
        snd (set_horz_spacer_widths b e (max (k_horz_space - x) 0) (m_padding g) g))"

definition line_range :: "'a list \<Rightarrow> nat \<times> nat \<times> real \<Rightarrow> 'a list" where
  "line_range ws l = (case l of (b, e, x) \<Rightarrow> range_of ws b e)"

definition line_width :: "real \<Rightarrow> Frame \<Rightarrow> nat \<times> nat \<times> real \<Rightarrow> real" where
  "line_width k_horz_space f l =
     (case l of (b, e, x) \<Rightarrow>
        max 0 (max (k_horz_space - x) 0
                 / real (length (filter (is_horizontal_spacer f) (range_of (m_widgets f) b e)))
               - m_padding f))"

text \<open>
  The sum of the advances of the widgets of a line that are not spacers, used to state what
  the spec expects of a line with one spacer.
\<close>

definition non_spacer_advances :: "heap \<Rightarrow> addr \<Rightarrow> Frame \<Rightarrow> wptr list \<Rightarrow> real" where
  "non_spacer_advances h this f line =
     sum_list (map (get_widget_advance h this f) (filter (\<lambda>w. \<not> is_horizontal_spacer f w) line))"

text \<open>
  The width a spacer has after one more line: the line's share if the spacer is on the line,
  the width it had otherwise.
\<close>

definition settle :: "real \<Rightarrow> Frame \<Rightarrow> nat \<Rightarrow> real \<Rightarrow> nat \<times> nat \<times> real \<Rightarrow> real" where
  "settle W f i w l =
     (if Slot (v_data (m_horz_spacers f)) i \<in> set (line_range (m_widgets f) l)
      then line_width W f l else w)"

text \<open>
  The used width of a line, stated on its own from the rule the pass is written to follow:
  every widget that is not a spacer contributes its advance, and a spacer that directly
  follows a widget with a trailing padding, one that is neither a spacer nor the line
  separator, takes that padding back.
\<close>

fun absorbed_paddings :: "addr \<Rightarrow> Frame \<Rightarrow> bool \<Rightarrow> wptr list \<Rightarrow> nat" where
  "absorbed_paddings this f padded [] = 0"
| "absorbed_paddings this f padded (w # line) =
     (if is_horizontal_spacer f w
      then (if padded then 1 else 0) + absorbed_paddings this f False line
      else absorbed_paddings this f (\<not> is_line_seperator this w) line)"

definition used_width :: "heap \<Rightarrow> addr \<Rightarrow> Frame \<Rightarrow> wptr list \<Rightarrow> real" where
  "used_width h this f line =
     non_spacer_advances h this f line - m_padding f * real (absorbed_paddings this f False line)"



section \<open>Frame: containment\<close>

text \<open>
  What \<^verbatim>\<open>Frame::contains\<close> is meant to decide, stated on its own: a widget is contained
  in a frame when it is in the frame's widget list, or contained in a frame of that list.
\<close>

inductive contained_in :: "heap \<Rightarrow> wptr \<Rightarrow> Frame \<Rightarrow> bool" for h p where
  direct: "p \<in> set (m_widgets g) \<Longrightarrow> contained_in h p g"
| nested: "Ext a \<in> set (m_widgets g) \<Longrightarrow> h a = FrameObj c \<Longrightarrow> contained_in h p c
           \<Longrightarrow> contained_in h p g"

code_pred contained_in .

definition list_contains :: "heap \<Rightarrow> wptr \<Rightarrow> wptr list \<Rightarrow> bool" where
  "list_contains h p ws \<longleftrightarrow>
     p \<in> set ws \<or> (\<exists>a c. Ext a \<in> set ws \<and> h a = FrameObj c \<and> contained_in h p c)"

text \<open>
  A heap is acyclic when its frames can be ranked so that every widget of a frame's list
  ranks below the frame: no frame reaches itself through widget lists.
\<close>

definition acyclic_heap :: "heap \<Rightarrow> (addr \<Rightarrow> nat) \<Rightarrow> bool" where
  "acyclic_heap h rank \<longleftrightarrow>
     (\<forall>a g b. h a = FrameObj g \<longrightarrow> Ext b \<in> set (m_widgets g) \<longrightarrow> rank b < rank a)"

section \<open>Example objects\<close>

definition empty_border :: FrameBorder where
  "empty_border =
     \<lparr>fb_location = (0, 0), fb_width = 0, fb_height = 0, fb_widget_start = (0, 0),
      fb_width_available_for_widgets = 0, fb_title_width_accommodation = 0\<rparr>"

definition frame_of :: "wptr list \<Rightarrow> Frame" where
  "frame_of ws =
     \<lparr>m_widgets = ws, m_padding = 5, m_horz_spacers = empty_vec, m_border = empty_border\<rparr>"

definition nested_heap :: heap where
  "nested_heap =
     (\<lambda>a. if a = 4 then FrameObj (frame_of [])
          else if a = 5 then FrameObj (frame_of [Ext 4])
          else if a = 6 then FrameObj (frame_of [Ext 9, Ext 5])
          else LeafObj \<lparr>lf_width = 40, lf_height = 20\<rparr>)"

definition example_collaborators :: collaborators where
  "example_collaborators =
     \<lparr>set_style_impl = (\<lambda>smap p h. Some (None,
         case h p of
           FrameObj f \<Rightarrow>
             h(p := FrameObj (f\<lparr>m_padding :=
                 (case smap ''global-padding'' of Some (FloatField x) \<Rightarrow> x | _ \<Rightarrow> 5)\<rparr>))
         | LeafObj l \<Rightarrow> h)),
      finalize_geometry_impl = (\<lambda>p h. Some (None, h))\<rparr>"

definition example_storage :: "HorizontalSpacer vec" where
  "example_storage = \<lparr>v_data = 2, v_capacity = 1, v_elems = [new_HorizontalSpacer]\<rparr>"

definition committing_adder :: "StyleMap option \<Rightarrow> WidgetAdder" where
  "committing_adder styles =
     \<lparr>wa_m_widgets = [Ext 9, Slot 2 0],
      wa_m_horz_spacers = example_storage,
      m_the_line_sep = Sep 4, m_styles = styles, m_parent = Some 4\<rparr>"

definition foreign_adder :: WidgetAdder where
  "foreign_adder = (committing_adder None)\<lparr>m_the_line_sep := Sep 5\<rparr>"

definition example_styles :: StyleMap where
  "example_styles = [''global-padding'' \<mapsto> FloatField 8]"

definition leaf_heap :: heap where
  "leaf_heap = (\<lambda>a. LeafObj \<lparr>lf_width = 40, lf_height = 20\<rparr>)"

definition titled_border :: FrameBorder where
  "titled_border = \<lparr>fb_location = (0, 0), fb_width = 200, fb_height = 100, fb_widget_start = (5, 25),
      fb_width_available_for_widgets = 100, fb_title_width_accommodation = 60\<rparr>"

definition layout_frame :: "wptr list \<Rightarrow> real list \<Rightarrow> Frame" where
  "layout_frame ws widths = \<lparr>m_widgets = ws, m_padding = 10,
     m_horz_spacers = \<lparr>v_data = 2, v_capacity = 3,
        v_elems = map (\<lambda>w. \<lparr>hs_location = (0, 0), hs_width = w\<rparr>) widths\<rparr>,
     m_border = titled_border\<rparr>"

definition example_adder :: WidgetAdder where
  "example_adder = WidgetAdder_default\<lparr>m_the_line_sep := Sep 5, m_parent := Some 5\<rparr>"

definition example_adder_1 :: WidgetAdder where
  "example_adder_1 =
     \<lparr>wa_m_widgets = [Ext 7, Slot 1 0, Sep 5],
      wa_m_horz_spacers = \<lparr>v_data = 1, v_capacity = 1, v_elems = [new_HorizontalSpacer]\<rparr>,
      m_the_line_sep = Sep 5, m_styles = None, m_parent = Some 5\<rparr>"

definition example_adder_2 :: WidgetAdder where
  "example_adder_2 =
     \<lparr>wa_m_widgets = [Ext 7, Slot 2 0, Sep 5, Slot 2 1],
      wa_m_horz_spacers =
        \<lparr>v_data = 2, v_capacity = 3, v_elems = [new_HorizontalSpacer, new_HorizontalSpacer]\<rparr>,
      m_the_line_sep = Sep 5, m_styles = None, m_parent = Some 5\<rparr>"

text \<open>
  Two empty frames, and the same heap after the list of the first frame and the second has
  been committed to the first.
\<close>

definition two_frames_heap :: heap where
  "two_frames_heap =
     (\<lambda>a. if a = 4 \<or> a = 5 then FrameObj (frame_of [])
          else LeafObj \<lparr>lf_width = 40, lf_height = 20\<rparr>)"

definition self_containing_heap :: heap where
  "self_containing_heap = two_frames_heap(4 := FrameObj (frame_of [Ext 4, Ext 5]))"

text \<open>
  A frame whose numbers are binary32 values: the widths are those of 19.5, 41.3 and 18.3,
  the width of the frame is that of 104.1.
\<close>

definition measured_heap :: heap where
  "measured_heap =
     (\<lambda>a. if a = 7 then LeafObj \<lparr>lf_width = 39 / 2, lf_height = 20\<rparr>
          else if a = 8 then LeafObj \<lparr>lf_width = 10826547 / 262144, lf_height = 20\<rparr>
          else LeafObj \<lparr>lf_width = 4797235 / 262144, lf_height = 20\<rparr>)"

definition measured_frame :: Frame where
  "measured_frame =
     \<lparr>m_widgets = [Ext 7, Ext 8, Ext 9], m_padding = 5, m_horz_spacers = empty_vec,
      m_border = \<lparr>fb_location = (0, 0), fb_width = 13644595 / 131072, fb_height = 100,
                  fb_widget_start = (5, 25),
                  fb_width_available_for_widgets = 12333875 / 131072,
                  fb_title_width_accommodation = 0\<rparr>\<rparr>"

text \<open>
  A heap with a widget of width 200 and widgets of width -150; \<^verbatim>\<open>ProgressBar::set_size\<close>,
  for one, stores any size it is given.
\<close>

definition uneven_heap :: heap where
  "uneven_heap =
     (\<lambda>a. if a = 9 then LeafObj \<lparr>lf_width = 200, lf_height = 20\<rparr>
          else LeafObj \<lparr>lf_width = - 150, lf_height = 20\<rparr>)"

text \<open>A frame with a border of 5 on each side and a padding of 10.\<close>

definition narrow_border :: FrameBorder where
  "narrow_border = \<lparr>fb_location = (0, 0), fb_width = 110, fb_height = 100, fb_widget_start = (5, 25),
      fb_width_available_for_widgets = 100, fb_title_width_accommodation = 60\<rparr>"

definition narrow_frame :: Frame where
  "narrow_frame = \<lparr>m_widgets = [Ext 9, Ext 8], m_padding = 10, m_horz_spacers = empty_vec,
     m_border = narrow_border\<rparr>"

definition example_bar :: ProgressBar where
  "example_bar =
     \<lparr>pb_m_outer = \<lparr>dr_x = Fin 0, dr_y = Fin 0, dr_width = Fin 100, dr_height = Fin 32\<rparr>,
      pb_m_inner_front = \<lparr>dr_x = Fin 2, dr_y = Fin 2, dr_width = Fin 24, dr_height = Fin 28\<rparr>,
      pb_m_inner_back = \<lparr>dr_x = Fin 2, dr_y = Fin 2, dr_width = Fin 96, dr_height = Fin 28\<rparr>,
      m_fill_amount = Fin (1 / 4), pb_m_padding = Fin 2\<rparr>"

definition example_button :: Button where
  "example_button =
     \<lparr>btn_m_outer = \<lparr>dr_x = Fin 0, dr_y = Fin 0, dr_width = Fin 32, dr_height = Fin 32\<rparr>,
      btn_m_inner = \<lparr>dr_x = Fin 2, dr_y = Fin 2, dr_width = Fin 28, dr_height = Fin 28\<rparr>,
      btn_m_padding = Fin 2, m_is_highlighted = False\<rparr>"

section \<open>Binary32 arithmetic: rounding\<close>

text \<open>
  Rounding to nearest is monotone and leaves a point of the grid where it is; these two
  facts are what the statements about sums of floats below rest on.
\<close>

lemma round_half_even_of_int: "round_half_even (of_int k) = k"
  by (simp add: round_half_even_def)

lemma round_half_even_bounds:
  "\<lfloor>t\<rfloor> \<le> round_half_even t \<and> round_half_even t \<le> \<lfloor>t\<rfloor> + 1"
  by (simp add: round_half_even_def Let_def)

lemma round_half_even_mono:
  assumes "s \<le> t"
  shows "round_half_even s \<le> round_half_even t"
proof (cases "\<lfloor>s\<rfloor> = \<lfloor>t\<rfloor>")
  case True
  then show ?thesis using assms by (auto simp: round_half_even_def Let_def)
next
  case False
  with assms have lt: "\<lfloor>s\<rfloor> < \<lfloor>t\<rfloor>" using floor_mono [of s t] by linarith
  have "round_half_even s \<le> \<lfloor>s\<rfloor> + 1" using round_half_even_bounds [of s] by simp
  also have "\<dots> \<le> \<lfloor>t\<rfloor>" using lt by simp
  also have "\<dots> \<le> round_half_even t" using round_half_even_bounds [of t] by simp
  finally show ?thesis .
qed

lemma round_half_even_le: "t \<le> of_int k \<Longrightarrow> round_half_even t \<le> k"
  using round_half_even_mono [of t "of_int k"] by (simp add: round_half_even_of_int)

lemma round_half_even_ge: "of_int k \<le> t \<Longrightarrow> k \<le> round_half_even t"
  using round_half_even_mono [of "of_int k" t] by (simp add: round_half_even_of_int)

lemma binade_search_range: "- 126 \<le> binade_search n a \<and> binade_search n a \<le> int n - 126"
  by (induction n) auto

lemma binade_search_lower:
  "2 powi (- 126) \<le> a \<Longrightarrow> 2 powi (binade_search n a) \<le> a"
  by (induction n) auto

lemma binade_search_upper:
  "a < 2 powi (int n - 125) \<Longrightarrow> a < 2 powi (binade_search n a + 1)"
proof (induction n)
  case 0
  then show ?case by simp
next
  case (Suc n)
  have eq: "int n - 125 + 1 = int (Suc n) - 125" by simp
  show ?case
  proof (cases "(2::real) powi (int n - 125) \<le> a")
    case True
    then show ?thesis using Suc.prems by (simp only: binade_search.simps if_True eq)
  next
    case False
    then show ?thesis using Suc.IH by simp
  qed
qed

lemma binade_search_sub: "a < 2 powi (- 125) \<Longrightarrow> binade_search n a = - 126"
proof (induction n)
  case 0
  then show ?case by simp
next
  case (Suc n)
  have "(2::real) powi (- 125) \<le> 2 powi (int n - 125)"
    by (rule power_int_increasing) auto
  with Suc show ?case by simp
qed

lemma binade_search_mono: "a \<le> b \<Longrightarrow> binade_search n a \<le> binade_search n b"
proof (induction n)
  case 0
  then show ?case by simp
next
  case (Suc n)
  then show ?case using binade_search_range [of n a] by auto
qed

lemma binade_range: "- 126 \<le> binade a \<and> binade a \<le> 127"
  using binade_search_range [of 253 a] by (simp add: binade_def)

lemma binade_lower: "2 powi (- 126) \<le> a \<Longrightarrow> 2 powi (binade a) \<le> a"
  unfolding binade_def by (rule binade_search_lower)

lemma binade_upper: "a < 2 ^ 128 \<Longrightarrow> a < 2 powi (binade a + 1)"
  unfolding binade_def using binade_search_upper [of a 253] by simp

lemma binade_sub: "a < 2 powi (- 125) \<Longrightarrow> binade a = - 126"
  unfolding binade_def by (rule binade_search_sub)

lemma binade_mono: "a \<le> b \<Longrightarrow> binade a \<le> binade b"
  unfolding binade_def by (rule binade_search_mono)

lemma binade_unique:
  assumes "2 powi e \<le> a" and "a < 2 powi (e + 1)" and "- 126 \<le> e" and "e \<le> 127"
  shows "binade a = e"
proof -
  have low: "(2::real) powi (- 126) \<le> a"
    using power_int_increasing [of "- 126" e "2::real"] assms by simp
  have "(2::real) powi (e + 1) \<le> 2 powi 128"
    using assms by (intro power_int_increasing) auto
  then have up: "a < 2 ^ 128" using assms(2) by simp
  have "\<not> e + 1 \<le> binade a"
  proof
    assume "e + 1 \<le> binade a"
    then have "(2::real) powi (e + 1) \<le> 2 powi (binade a)"
      by (intro power_int_increasing) auto
    with binade_lower [OF low] assms(2) show False by simp
  qed
  moreover have "\<not> binade a + 1 \<le> e"
  proof
    assume "binade a + 1 \<le> e"
    then have "(2::real) powi (binade a + 1) \<le> 2 powi e"
      by (intro power_int_increasing) auto
    with binade_upper [OF up] assms(1) show False by simp
  qed
  ultimately show ?thesis by simp
qed

lemma binade_top: "2 ^ 127 \<le> a \<Longrightarrow> binade a = 127"
  unfolding binade_def by (simp add: eval_nat_numeral)

lemma ulp_pos: "0 < ulp a"
  by (simp add: ulp_def zero_less_power_int)

lemma round_magnitude_nonneg: "0 \<le> a \<Longrightarrow> 0 \<le> round_magnitude a"
  unfolding round_magnitude_def
  using round_half_even_ge [of 0 "a / ulp a"] ulp_pos [of a] by simp

text \<open>Rounding does not cross a multiple of the unit in the last place.\<close>

lemma round_magnitude_le:
  "a \<le> of_int k * ulp a \<Longrightarrow> round_magnitude a \<le> of_int k * ulp a"
  unfolding round_magnitude_def
  using round_half_even_le [of "a / ulp a" k] ulp_pos [of a]
  by (simp add: pos_divide_le_eq)

lemma round_magnitude_ge:
  "of_int k * ulp a \<le> a \<Longrightarrow> of_int k * ulp a \<le> round_magnitude a"
  unfolding round_magnitude_def
  using round_half_even_ge [of k "a / ulp a"] ulp_pos [of a]
  by (simp add: pos_le_divide_eq)

lemma power_int_split:
  assumes "j \<le> (e::int)"
  shows "(2::real) powi e = of_int (2 ^ nat (e - j)) * 2 powi j"
proof -
  have "(2::real) powi e = 2 powi ((e - j) + j)" by simp
  also have "\<dots> = 2 powi (e - j) * 2 powi j" by (rule power_int_add) simp
  also have "(2::real) powi (e - j) = 2 ^ nat (e - j)"
    using assms by (simp add: power_int_def)
  finally show ?thesis by simp
qed

lemma round_magnitude_mono:
  assumes "0 \<le> a" and "a \<le> b"
  shows "round_magnitude a \<le> round_magnitude b"
proof (cases "binade a = binade b")
  case True
  then have u: "ulp b = ulp a" by (simp add: ulp_def)
  have "a / ulp a \<le> b / ulp a" using assms ulp_pos [of a] by (simp add: divide_right_mono)
  then have "round_half_even (a / ulp a) \<le> round_half_even (b / ulp a)"
    by (rule round_half_even_mono)
  then show ?thesis using ulp_pos [of a] by (simp add: round_magnitude_def u)
next
  case False
  with binade_mono [OF assms(2)] have lt: "binade a < binade b" by simp
  have a_small: "a < 2 ^ 128"
  proof (rule ccontr)
    assume "\<not> a < 2 ^ 128"
    then have "(2::real) ^ 127 \<le> a" by simp
    then have "binade a = 127" by (rule binade_top)
    with lt binade_range [of b] show False by simp
  qed
  have b_big: "(2::real) powi (- 126) \<le> b"
  proof (rule ccontr)
    assume "\<not> 2 powi (- 126) \<le> b"
    then have "b < 2 powi (- 125)" by simp
    then have "binade b = - 126" by (rule binade_sub)
    with lt binade_range [of a] show False by simp
  qed
  define B :: real where "B = 2 powi (binade b)"
  have "a < 2 powi (binade a + 1)" using a_small by (rule binade_upper)
  also have "\<dots> \<le> B" unfolding B_def using lt by (intro power_int_increasing) auto
  finally have aB: "a \<le> B" by simp
  have Bb: "B \<le> b" unfolding B_def using b_big by (rule binade_lower)
  have Ba: "B = of_int (2 ^ nat (binade b - (binade a - 23))) * ulp a"
    unfolding B_def ulp_def using lt by (intro power_int_split) simp
  have Bbb: "B = of_int (2 ^ nat (binade b - (binade b - 23))) * ulp b"
    unfolding B_def ulp_def by (intro power_int_split) simp
  have "round_magnitude a \<le> B"
    using round_magnitude_le [of a "2 ^ nat (binade b - (binade a - 23))"] aB Ba by simp
  moreover have "B \<le> round_magnitude b"
    using round_magnitude_ge [of "2 ^ nat (binade b - (binade b - 23))" b] Bb Bbb by simp
  ultimately show ?thesis by simp
qed

lemma round_magnitude_multiple:
  assumes "ulp r = 2 powi j'" and "r = of_int k * 2 powi j" and "j' \<le> j"
  shows "round_magnitude r = r"
proof -
  have "(2::real) powi j = of_int (2 ^ nat (j - j')) * 2 powi j'"
    using assms(3) by (rule power_int_split)
  then have r: "r = of_int (k * 2 ^ nat (j - j')) * ulp r"
    using assms(1,2) by simp
  have "r / ulp r = of_int (k * 2 ^ nat (j - j'))"
    using ulp_pos [of r] by (subst r) simp
  then show ?thesis
    unfolding round_magnitude_def using r by (simp only: round_half_even_of_int)
qed

lemma round_magnitude_idem:
  assumes "0 \<le> a"
  shows "round_magnitude (round_magnitude a) = round_magnitude a"
proof -
  define n where "n = round_half_even (a / ulp a)"
  define r where "r = round_magnitude a"
  have r: "r = of_int n * 2 powi (binade a - 23)"
    by (simp add: r_def n_def round_magnitude_def ulp_def)
  have r0: "0 \<le> r" unfolding r_def using assms by (rule round_magnitude_nonneg)
  show ?thesis
  proof (cases "binade r \<le> binade a")
    case True
    have "round_magnitude r = r"
      by (rule round_magnitude_multiple [OF _ r, of "binade r - 23"]) (use True in \<open>simp_all add: ulp_def\<close>)
    then show ?thesis by (simp add: r_def)
  next
    case False
    then have gt: "binade a < binade r" by simp
    then have a127: "binade a < 127" using binade_range [of r] by simp
    have a_small: "a < 2 ^ 128"
    proof (rule ccontr)
      assume "\<not> a < 2 ^ 128"
      then have "(2::real) ^ 127 \<le> a" by simp
      then have "binade a = 127" by (rule binade_top)
      with a127 show False by simp
    qed
    define B :: real where "B = 2 powi (binade a + 1)"
    have aB: "a \<le> B" unfolding B_def using binade_upper [OF a_small] by simp
    have Ba: "B = of_int (2 ^ nat (binade a + 1 - (binade a - 23))) * ulp a"
      unfolding B_def ulp_def by (intro power_int_split) simp
    have rB: "r \<le> B"
      unfolding r_def
      using round_magnitude_le [of a "2 ^ nat (binade a + 1 - (binade a - 23))"] aB Ba by simp
    have "B \<le> r"
    proof (rule ccontr)
      assume "\<not> B \<le> r"
      then have lt: "r < 2 powi (binade a + 1)" by (simp add: B_def)
      have "binade r \<le> binade a"
      proof (cases "2 powi (- 126) \<le> r")
        case True
        have "\<not> binade a + 1 \<le> binade r"
        proof
          assume "binade a + 1 \<le> binade r"
          then have "(2::real) powi (binade a + 1) \<le> 2 powi (binade r)"
            by (intro power_int_increasing) auto
          with binade_lower [OF True] lt show False by simp
        qed
        then show ?thesis by simp
      next
        case False
        then have "r < 2 powi (- 125)" by simp
        then have "binade r = - 126" by (rule binade_sub)
        then show ?thesis using binade_range [of a] by simp
      qed
      with gt show False by simp
    qed
    with rB have rB': "r = B" by simp
    have "binade r = binade a + 1"
      unfolding rB' B_def using a127 binade_range [of a]
      by (intro binade_unique) (auto intro!: power_int_strict_increasing)
    then have u: "ulp r = 2 powi (binade a + 1 - 23)" by (simp add: ulp_def)
    have "round_magnitude r = r"
      by (rule round_magnitude_multiple [OF u, of 1 "binade a + 1"]) (simp_all add: rB' B_def)
    then show ?thesis by (simp add: r_def)
  qed
qed

lemma round32_zero: "round32 0 = 0"
  by (simp add: round32_def)

lemma round32_pos: "0 < x \<Longrightarrow> round32 x = round_magnitude x"
  by (simp add: round32_def)

lemma round32_neg: "x < 0 \<Longrightarrow> round32 x = - round_magnitude (- x)"
  by (simp add: round32_def)

lemma round32_nonneg: "0 \<le> x \<Longrightarrow> 0 \<le> round32 x"
  using round_magnitude_nonneg [of x] by (cases "x = 0") (simp_all add: round32_zero round32_pos)

lemma round32_nonpos: "x \<le> 0 \<Longrightarrow> round32 x \<le> 0"
  using round_magnitude_nonneg [of "- x"] by (cases "x = 0") (simp_all add: round32_zero round32_neg)

lemma round32_mono:
  assumes "x \<le> y"
  shows "round32 x \<le> round32 y"
proof -
  consider "0 < x" | "x \<le> 0" "0 \<le> y" | "y < 0" by linarith
  then show ?thesis
  proof cases
    case 1
    then show ?thesis using assms round_magnitude_mono [of x y] by (simp add: round32_pos)
  next
    case 2
    then show ?thesis using round32_nonneg [of y] round32_nonpos [of x] by simp
  next
    case 3
    then show ?thesis using assms round_magnitude_mono [of "- y" "- x"] by (simp add: round32_neg)
  qed
qed

lemma round32_idem: "round32 (round32 x) = round32 x"
proof -
  consider "0 < x" | "x = 0" | "x < 0" by linarith
  then show ?thesis
  proof cases
    case 1
    then have r: "round32 x = round_magnitude x" by (rule round32_pos)
    show ?thesis
    proof (cases "round_magnitude x = 0")
      case True
      then show ?thesis by (simp add: r round32_zero)
    next
      case False
      with round_magnitude_nonneg [of x] 1 have "0 < round_magnitude x" by simp
      then show ?thesis using round_magnitude_idem [of x] 1 by (simp add: r round32_pos)
    qed
  next
    case 2
    then show ?thesis by (simp add: round32_zero)
  next
    case 3
    then have r: "round32 x = - round_magnitude (- x)" by (rule round32_neg)
    show ?thesis
    proof (cases "round_magnitude (- x) = 0")
      case True
      then show ?thesis by (simp add: r round32_zero)
    next
      case False
      with round_magnitude_nonneg [of "- x"] 3 have "0 < round_magnitude (- x)" by simp
      then show ?thesis using round_magnitude_idem [of "- x"] 3 by (simp add: r round32_neg)
    qed
  qed
qed

lemma canonical_to_float: "canonical (to_float x)"
  by (simp add: to_float_def Let_def round32_idem not_le)

lemma canonical_fadd_any: "canonical (fadd a b)"
  by (cases a; cases b) (simp_all add: canonical_to_float)

lemma to_float_mono: "x \<le> y \<Longrightarrow> fle (to_float x) (to_float y)"
  using round32_mono [of x y] by (auto simp: to_float_def Let_def)

lemma fle_trans: "fle a b \<Longrightarrow> fle b c \<Longrightarrow> fle a c"
  by (cases a; cases b; cases c) auto

lemma fle_not_flt: "fle a b \<Longrightarrow> \<not> flt b a"
  by (cases a; cases b) auto

lemma flt_NaN: "\<not> flt a NaN" "\<not> flt NaN a"
  by (cases a; simp)+

lemma fle_NaN: "\<not> fle a NaN" "\<not> fle NaN a"
  by (cases a; simp)+

lemma fadd_NaN: "fadd NaN a = NaN" "fadd a NaN = NaN"
  by (cases a; simp)+

lemma fadd_mono_left:
  "fle x s \<Longrightarrow> fadd x a \<noteq> NaN \<Longrightarrow> fadd s a \<noteq> NaN \<Longrightarrow> fle (fadd x a) (fadd s a)"
  by (cases x; cases s; cases a) (auto simp: to_float_mono, auto simp: to_float_def Let_def)

lemma fadd_nonneg_ge:
  assumes "canonical s" and "fle (Fin 0) a" and "fadd s a \<noteq> NaN"
  shows "fle s (fadd s a)"
proof (cases s)
  case (Fin r)
  show ?thesis
  proof (cases a)
    case (Fin b)
    with assms(2) have "r \<le> r + b" by simp
    then have "round32 r \<le> round32 (r + b)" by (rule round32_mono)
    with assms(1) \<open>s = Fin r\<close> have "r \<le> round32 (r + b)" by simp
    with assms(1) show ?thesis
      using \<open>s = Fin r\<close> \<open>a = Fin b\<close> by (auto simp: to_float_def Let_def)
  qed (use assms \<open>s = Fin r\<close> in auto)
qed (use assms in \<open>auto elim: fle.elims\<close>)

lemma fadd_nonpos_le:
  assumes "canonical x" and "fle q (Fin 0)" and "fadd x q \<noteq> NaN"
  shows "fle (fadd x q) x"
proof (cases x)
  case (Fin r)
  show ?thesis
  proof (cases q)
    case (Fin b)
    with assms(2) have "r + b \<le> r" by simp
    then have "round32 (r + b) \<le> round32 r" by (rule round32_mono)
    with assms(1) \<open>x = Fin r\<close> have "round32 (r + b) \<le> r" by simp
    with assms(1) show ?thesis
      using \<open>x = Fin r\<close> \<open>q = Fin b\<close> by (auto simp: to_float_def Let_def)
  qed (use assms \<open>x = Fin r\<close> in auto)
qed (use assms in \<open>auto elim: fle.elims\<close>)

lemma fmul_NaN: "fmul NaN a = NaN" "fmul a NaN = NaN"
  by (cases a; simp)+

text \<open>The floats on the grid, among them the integers below \<^verbatim>\<open>2^24\<close>, are rounded to themselves.\<close>

lemma round32_in_binade:
  assumes "2 powi e \<le> \<bar>x\<bar>" and "\<bar>x\<bar> < 2 powi (e + 1)" and "- 126 \<le> e" and "e \<le> 127"
  shows "round32 x = sgn x * (of_int (round_half_even (\<bar>x\<bar> / 2 powi (e - 23))) * 2 powi (e - 23))"
  using binade_unique [OF assms] by (simp add: round32_def round_magnitude_def ulp_def)

lemma round32_grid:
  assumes "\<bar>k\<bar> < 2 ^ 24" and "- 149 \<le> j"
  shows "round32 (of_int k * 2 powi j) = of_int k * 2 powi j"
proof -
  define r :: real where "r = of_int \<bar>k\<bar> * 2 powi j"
  have r0: "0 \<le> r" by (simp add: r_def)
  have rlt: "r < 2 powi (j + 24)"
  proof -
    have "of_int \<bar>k\<bar> < (2::real) ^ 24" using assms(1) by (metis of_int_less_numeral_power_cancel_iff)
    then have "r < 2 ^ 24 * 2 powi j" unfolding r_def
      by (intro mult_strict_right_mono zero_less_power_int) auto
    also have "\<dots> = 2 powi (j + 24)" by (simp add: power_int_add)
    finally show ?thesis .
  qed
  have b: "binade r - 23 \<le> j"
  proof (cases "2 powi (- 126) \<le> r")
    case True
    have "\<not> j + 24 \<le> binade r"
    proof
      assume "j + 24 \<le> binade r"
      then have "(2::real) powi (j + 24) \<le> 2 powi (binade r)"
        by (intro power_int_increasing) auto
      with binade_lower [OF True] rlt show False by simp
    qed
    then show ?thesis by simp
  next
    case False
    then have "r < 2 powi (- 125)" by simp
    then have "binade r = - 126" by (rule binade_sub)
    with assms(2) show ?thesis by simp
  qed
  have m: "round_magnitude r = r"
  proof (rule round_magnitude_multiple [of r "binade r - 23" "\<bar>k\<bar>" j])
    show "ulp r = 2 powi (binade r - 23)" by (simp add: ulp_def)
    show "r = of_int \<bar>k\<bar> * 2 powi j" by (simp add: r_def)
    show "binade r - 23 \<le> j" by (rule b)
  qed
  have abs: "\<bar>of_int k * 2 powi j\<bar> = r"
    by (simp add: r_def abs_mult)
  have "sgn (of_int k * (2::real) powi j) * r = of_int k * 2 powi j"
    by (simp add: r_def sgn_mult mult.assoc [symmetric] flip: of_int_mult)
       (simp add: sgn_if)
  then show ?thesis by (simp add: round32_def abs m)
qed

lemma to_float_grid:
  assumes "\<bar>k\<bar> < 2 ^ 24" and "- 149 \<le> j" and "j \<le> 104"
  shows "to_float (of_int k * 2 powi j) = Fin (of_int k * 2 powi j)"
proof -
  have "\<bar>of_int k * (2::real) powi j\<bar> < 2 ^ 24 * 2 powi 104"
  proof -
    have "of_int \<bar>k\<bar> < (2::real) ^ 24" using assms(1) by (metis of_int_less_numeral_power_cancel_iff)
    moreover have "(2::real) powi j \<le> 2 powi 104" using assms(3) by (intro power_int_increasing) auto
    moreover have "0 < (2::real) powi j" by (simp add: zero_less_power_int)
    ultimately have "of_int \<bar>k\<bar> * (2::real) powi j < 2 ^ 24 * 2 powi 104"
      by (intro mult_less_le_imp_less) auto
    then show ?thesis by (simp add: abs_mult)
  qed
  then have "\<bar>of_int k * (2::real) powi j\<bar> < 2 ^ 128" by simp
  then show ?thesis
    using round32_grid [OF assms(1,2)] by (auto simp: to_float_def Let_def)
qed

lemma to_float_int: "\<bar>k\<bar> < 2 ^ 24 \<Longrightarrow> to_float (of_int k) = Fin (of_int k)"
  using to_float_grid [of k 0] by simp

lemma to_float_numeral:
  "numeral n < (2::int) ^ 24 \<Longrightarrow> to_float (numeral n) = Fin (numeral n)"
  using to_float_int [of "numeral n"] by simp

lemma to_float_neg_numeral:
  "numeral n < (2::int) ^ 24 \<Longrightarrow> to_float (- numeral n) = Fin (- numeral n)"
  using to_float_int [of "- numeral n"] by simp

lemma to_float_zero: "to_float 0 = Fin 0"
  using to_float_int [of 0] by simp

lemma to_float_in_binade:
  assumes "2 powi e \<le> \<bar>x\<bar>" and "\<bar>x\<bar> < 2 powi (e + 1)" and "- 126 \<le> e" and "e < 127"
  shows "to_float x =
           Fin (sgn x * (of_int (round_half_even (\<bar>x\<bar> / 2 powi (e - 23))) * 2 powi (e - 23)))"
proof -
  from assms(4) have e: "e \<le> 127" by simp
  let ?n = "round_half_even (\<bar>x\<bar> / 2 powi (e - 23))"
  have r: "round32 x = sgn x * (of_int ?n * 2 powi (e - 23))"
    by (rule round32_in_binade [OF assms(1-3) e])
  have p: "(2::real) powi (e + 1) = of_int (2 ^ 24) * 2 powi (e - 23)"
    using power_int_split [of "e - 23" "e + 1"] by simp
  have "\<bar>x\<bar> / 2 powi (e - 23) \<le> of_int (2 ^ 24)"
    using assms(2) p by (simp add: pos_divide_le_eq zero_less_power_int)
  then have "?n \<le> 2 ^ 24" by (rule round_half_even_le)
  then have "of_int ?n * (2::real) powi (e - 23) \<le> 2 powi (e + 1)"
    unfolding p by (intro mult_right_mono) (auto simp: zero_less_power_int less_imp_le)
  also have "\<dots> < 2 powi 128" using assms(4) by (intro power_int_strict_increasing) auto
  finally have up: "of_int ?n * (2::real) powi (e - 23) < 2 ^ 128" by simp
  have "0 \<le> \<bar>x\<bar> / 2 powi (e - 23)" by (simp add: zero_less_power_int less_imp_le)
  then have n0: "0 \<le> ?n" using round_half_even_ge [of 0] by simp
  then have low: "0 \<le> of_int ?n * (2::real) powi (e - 23)"
    by (simp add: zero_less_power_int less_imp_le)
  have "\<bar>round32 x\<bar> \<le> of_int ?n * 2 powi (e - 23)"
    unfolding r using low n0 by (cases "x = 0") (simp_all add: abs_mult abs_sgn_eq)
  with up have "\<bar>round32 x\<bar> < 2 ^ 128" by simp
  then show ?thesis by (auto simp: to_float_def Let_def r)
qed

lemma fadd_nonneg: "fle (Fin 0) a \<Longrightarrow> fle (Fin 0) b \<Longrightarrow> fle (Fin 0) (fadd a b)"
proof (cases a; cases b)
  fix r q
  assume "a = Fin r" "b = Fin q" "fle (Fin 0) a" "fle (Fin 0) b"
  then have "0 \<le> r + q" by simp
  from round32_nonneg [OF this] show ?thesis
    using \<open>a = Fin r\<close> \<open>b = Fin q\<close> by (auto simp: to_float_def Let_def)
qed auto

lemma foldl_fadd_ge:
  assumes "\<forall>a \<in> set as. fle (Fin 0) a"
      and "canonical s"
      and "fle (foldl fadd s as) bound"
  shows "fle s bound"
  using assms
proof (induction as arbitrary: s)
  case Nil
  then show ?case by simp
next
  case (Cons a as)
  have c: "canonical (fadd s a)" by (rule canonical_fadd_any)
  from Cons.prems(3) have tot: "fle (foldl fadd (fadd s a) as) bound" by simp
  from Cons.IH [OF _ c tot] Cons.prems(1) have le: "fle (fadd s a) bound" by simp
  then have "fadd s a \<noteq> NaN" by (auto simp: fle_NaN)
  from fadd_nonneg_ge [OF Cons.prems(2) _ this] Cons.prems(1) have "fle s (fadd s a)" by simp
  then show ?case using le by (rule fle_trans)
qed

section \<open>WidgetAdder: revalidating the spacer pointers\<close>

lemma revalidate_relocates:
  "filter is_slot ws = map (Slot ob) [k..<n] \<Longrightarrow> k \<le> n \<Longrightarrow>
   revalidate ws (Slot nb k) (Slot ob k) = (map (relocate ob nb) ws, Slot nb n)"
proof (induction ws arbitrary: k)
  case Nil
  then show ?case by auto
next
  case (Cons w ws)
  show ?case
  proof (cases "w = Slot ob k")
    case True
    with Cons.prems have "k < n" by (cases "k < n") auto
    with True Cons.prems have "filter is_slot ws = map (Slot ob) [Suc k..<n]"
      by (simp add: upt_conv_Cons)
    with Cons.IH[of "Suc k"] \<open>k < n\<close> True show ?thesis
      by (simp add: relocate_def)
  next
    case False
    have ns: "\<not> is_slot w"
    proof
      assume "is_slot w"
      with Cons.prems have "w # filter is_slot ws = map (Slot ob) [k..<n]" by simp
      then have "w = Slot ob k" by (cases "k < n") (auto simp: upt_conv_Cons)
      with False show False by simp
    qed
    then have "relocate ob nb w = w" by (cases w) (auto simp: relocate_def)
    with ns False Cons.prems Cons.IH[of k] show ?thesis by simp
  qed
qed

lemma copy_in_place:
  "length (v_elems v) + length xs \<le> v_capacity v \<Longrightarrow>
   vec_copy_back_inserter xs (v, al) = (v\<lparr>v_elems := v_elems v @ xs\<rparr>, al)"
  unfolding vec_copy_back_inserter_def
proof (induction xs arbitrary: v)
  case Nil then show ?case by simp
next
  case (Cons x xs)
  then show ?case by (simp add: vec_push_back_def vec_size_def)
qed

lemma filter_slot_relocate:
  "filter is_slot (map (relocate ob nb) ws) = map (relocate ob nb) (filter is_slot ws)"
  by (induction ws) (auto simp: relocate_def split: wptr.splits)

lemma relocate_same [simp]: "relocate b b p = p"
  by (cases p) (auto simp: relocate_def)

lemma map_relocate_same [simp]: "map (relocate b b) ws = ws"
  by (induction ws) simp_all

lemma relocate_no_slot: "filter is_slot ws = [] \<Longrightarrow> map (relocate ob nb) ws = ws"
  by (induction ws) (auto simp: relocate_def split: wptr.splits if_splits)

lemma relocate_Slot [simp]: "relocate ob nb (Slot ob i) = Slot nb i"
  by (simp add: relocate_def)

lemma Null_notin_relocate:
  "Null \<notin> set ws \<Longrightarrow> Null \<notin> set (map (relocate ob nb) ws)"
  by (induction ws) (auto simp: relocate_def split: wptr.splits if_splits)

lemma ahs_step:
  assumes inv: "adder_inv (a, al)"
  shows "\<exists>t. add_horizontal_spacer (a, al) = (None, t) \<and> adder_inv t \<and> ahs_post (a, al) t"
proof -
  let ?sp = "wa_m_horz_spacers a"
  from inv have le: "vec_size ?sp \<le> v_capacity ?sp" and fresh: "v_data ?sp < al"
    and sep: "\<not> is_slot (m_the_line_sep a)" "m_the_line_sep a \<noteq> Null"
    and nn: "Null \<notin> set (wa_m_widgets a)"
    and fl: "filter is_slot (wa_m_widgets a) = map (Slot (v_data ?sp)) [0..<vec_size ?sp]"
    by (auto simp: adder_inv_def)
  show ?thesis
  proof (cases "vec_size ?sp = v_capacity ?sp \<and> v_elems ?sp \<noteq> []")
    case True
    have rs: "vec_reserve (Suc (v_capacity ?sp * 2)) (empty_vec, al) =
          (\<lparr>v_data = al, v_capacity = Suc (v_capacity ?sp * 2), v_elems = []\<rparr>, Suc al)"
      by (simp add: vec_reserve_def empty_vec_def)
    have cp: "vec_copy_back_inserter (v_elems ?sp)
                (\<lparr>v_data = al, v_capacity = Suc (v_capacity ?sp * 2), v_elems = []\<rparr>, Suc al) =
          (\<lparr>v_data = al, v_capacity = Suc (v_capacity ?sp * 2), v_elems = v_elems ?sp\<rparr>, Suc al)"
      using le by (subst copy_in_place) (auto simp: vec_size_def)
    have rv: "revalidate (wa_m_widgets a) (Slot al 0) (Slot (v_data ?sp) 0) =
          (map (relocate (v_data ?sp) al) (wa_m_widgets a), Slot al (vec_size ?sp))"
      using fl by (intro revalidate_relocates) auto
    have res: "add_horizontal_spacer (a, al) =
        (None, a\<lparr>wa_m_widgets := map (relocate (v_data ?sp) al) (wa_m_widgets a)
                       @ [Slot al (vec_size ?sp)],
                  wa_m_horz_spacers := \<lparr>v_data = al, v_capacity = Suc (v_capacity ?sp * 2),
                     v_elems = v_elems ?sp @ [new_HorizontalSpacer]\<rparr>\<rparr>, Suc al)"
      using True le
      by (simp add: add_horizontal_spacer_def rs cp rv vec_push_back_def vec_size_def Let_def)
    show ?thesis
      unfolding res using fl fresh sep True Null_notin_relocate[OF nn]
      by (simp add: adder_inv_def ahs_post_def vec_size_def filter_slot_relocate)
  next
    case False
    show ?thesis
    proof (cases "vec_size ?sp < v_capacity ?sp")
      case True
      with False have res: "add_horizontal_spacer (a, al) =
        (None, a\<lparr>wa_m_widgets := wa_m_widgets a @ [Slot (v_data ?sp) (vec_size ?sp)],
                  wa_m_horz_spacers := ?sp\<lparr>v_elems := v_elems ?sp @ [new_HorizontalSpacer]\<rparr>\<rparr>, al)"
        by (auto simp: add_horizontal_spacer_def vec_push_back_def vec_size_def Let_def)
      show ?thesis
        unfolding res using fl fresh sep nn True False
        by (auto simp: adder_inv_def ahs_post_def vec_size_def)
    next
      case nlt: False
      with False le have emp: "v_elems ?sp = []" and cap: "v_capacity ?sp = 0"
        by (auto simp: vec_size_def)
      then have res: "add_horizontal_spacer (a, al) =
        (None, a\<lparr>wa_m_widgets := wa_m_widgets a @ [Slot al 0],
                  wa_m_horz_spacers := \<lparr>v_data = al, v_capacity = 1,
                     v_elems = [new_HorizontalSpacer]\<rparr>\<rparr>, Suc al)"
        by (auto simp: add_horizontal_spacer_def vec_push_back_def vec_size_def Let_def)
      from fl emp have "filter is_slot (wa_m_widgets a) = []" by (simp add: vec_size_def)
      then show ?thesis
        unfolding res using fresh sep nn emp cap
        by (auto simp: adder_inv_def ahs_post_def vec_size_def relocate_no_slot)
    qed
  qed
qed

lemma filter_not_slot_relocate:
  "filter (\<lambda>p. \<not> is_slot p) (map (relocate ob nb) ws) = filter (\<lambda>p. \<not> is_slot p) ws"
  by (induction ws) (auto simp: relocate_def split: wptr.splits)

lemma add_inv: "adder_inv (a, al) \<Longrightarrow> adder_inv (add w a, al)"
  by (simp add: adder_inv_def add_def)

lemma add_line_seperator_inv: "adder_inv (a, al) \<Longrightarrow> adder_inv (add_line_seperator a, al)"
  by (auto simp: adder_inv_def add_line_seperator_def)

lemma run_calls_inv:
  "adder_inv (a, al) \<Longrightarrow> \<exists>t. run_calls cs (a, al) = (None, t) \<and> adder_inv t"
proof (induction cs arbitrary: a al)
  case Nil
  then show ?case by simp
next
  case (Cons c cs)
  show ?case
  proof (cases c)
    case (Add w)
    with Cons.IH[OF add_inv[OF Cons.prems]] show ?thesis by simp
  next
    case AddLineSeperator
    with Cons.IH[OF add_line_seperator_inv[OF Cons.prems]] show ?thesis by simp
  next
    case AddHorizontalSpacer
    from ahs_step[OF Cons.prems] obtain a1 al1
      where st: "add_horizontal_spacer (a, al) = (None, a1, al1)" and inv1: "adder_inv (a1, al1)"
      by auto
    from Cons.IH[OF inv1] st AddHorizontalSpacer show ?thesis by simp
  qed
qed

lemma begin_inv:
  "0 < al0 \<Longrightarrow> begin_adding_widgets this styles = Inr a0 \<Longrightarrow> adder_inv (a0, al0)"
  by (auto simp: begin_adding_widgets_def WidgetAdder_ctor_def WidgetAdder_default_def
        adder_inv_def empty_vec_def vec_size_def)

text \<open>
  What an adder obtained from \<^verbatim>\<open>begin_adding_widgets\<close> hands over after any sequence of
  calls makes the frame that commits it well-formed in the sense the spacer pass needs.
\<close>

lemma adder_commit_frame_wf:
  assumes "0 < al0"
      and "begin_adding_widgets this styles = Inr a0"
      and "run_calls cs (a0, al0) = (err, a, al)"
  shows "frame_wf (f\<lparr>m_widgets := wa_m_widgets a, m_horz_spacers := wa_m_horz_spacers a\<rparr>)"
proof -
  from run_calls_inv[OF begin_inv[OF assms(1,2)], of cs] assms(3)
  have "adder_inv (a, al)" by auto
  then show ?thesis by (simp add: adder_inv_def frame_wf_def)
qed

text \<open>
  C1. Take any sequence of \<^verbatim>\<open>add\<close>, \<^verbatim>\<open>add_horizontal_spacer\<close> and
  \<^verbatim>\<open>add_line_seperator\<close> calls on an adder obtained from \<^verbatim>\<open>begin_adding_widgets\<close>, and
  one more call of \<^verbatim>\<open>add_horizontal_spacer\<close>. No call fails (the assertion after the
  revalidation loop holds). After the last call the N-th entry of the widget list that points
  to a spacer is the address of the N-th element of the spacer storage; the widget list is
  the old one with every pointer into the old buffer moved to the same slot of the new buffer
  and the address of the new spacer appended, so the other entries are unchanged; and when
  the storage was full and not empty, the new capacity is twice the old one plus one and the
  buffer is a new one.
\<close>

theorem add_horizontal_spacer_revalidates:
  assumes "0 < al0"
      and "begin_adding_widgets this styles = Inr a0"
      and "run_calls cs (a0, al0) = (err, a, al)"
      and "add_horizontal_spacer (a, al) = (err', a', al')"
  shows "err = None \<and> err' = None \<and>
     filter is_slot (wa_m_widgets a') =
       map (Slot (v_data (wa_m_horz_spacers a'))) [0..<vec_size (wa_m_horz_spacers a')] \<and>
     wa_m_widgets a' =
       map (relocate (v_data (wa_m_horz_spacers a)) (v_data (wa_m_horz_spacers a'))) (wa_m_widgets a)
         @ [Slot (v_data (wa_m_horz_spacers a')) (vec_size (wa_m_horz_spacers a))] \<and>
     filter (\<lambda>p. \<not> is_slot p) (wa_m_widgets a') = filter (\<lambda>p. \<not> is_slot p) (wa_m_widgets a) \<and>
     v_elems (wa_m_horz_spacers a') = v_elems (wa_m_horz_spacers a) @ [new_HorizontalSpacer] \<and>
     (vec_size (wa_m_horz_spacers a) = v_capacity (wa_m_horz_spacers a)
        \<and> v_elems (wa_m_horz_spacers a) \<noteq> [] \<longrightarrow>
      v_capacity (wa_m_horz_spacers a') = 2 * v_capacity (wa_m_horz_spacers a) + 1 \<and>
      v_data (wa_m_horz_spacers a') \<noteq> v_data (wa_m_horz_spacers a))"
proof -
  from run_calls_inv[OF begin_inv[OF assms(1,2)], of cs] assms(3)
  have e: "err = None" and inv: "adder_inv (a, al)" by auto
  from ahs_step[OF inv] assms(4)
  have e': "err' = None" and inv': "adder_inv (a', al')" and post: "ahs_post (a, al) (a', al')"
    by auto
  from post have ws: "wa_m_widgets a' =
       map (relocate (v_data (wa_m_horz_spacers a)) (v_data (wa_m_horz_spacers a'))) (wa_m_widgets a)
         @ [Slot (v_data (wa_m_horz_spacers a')) (vec_size (wa_m_horz_spacers a))]"
    by (simp add: ahs_post_def)
  have "filter (\<lambda>p. \<not> is_slot p) (wa_m_widgets a') = filter (\<lambda>p. \<not> is_slot p) (wa_m_widgets a)"
    by (simp add: ws filter_not_slot_relocate)
  with e e' inv' post ws show ?thesis
    by (simp add: adder_inv_def ahs_post_def)
qed

lemma example_adder_run:
  "run_calls [Add 7, AddHorizontalSpacer, AddLineSeperator] (example_adder, 1) =
     (None, example_adder_1, 2)"
  by (simp add: example_adder_def example_adder_1_def WidgetAdder_default_def add_def
        add_line_seperator_def add_horizontal_spacer_def vec_push_back_def vec_size_def
        empty_vec_def Let_def)

lemma example_adder_grow:
  "add_horizontal_spacer (example_adder_1, 2) = (None, example_adder_2, 3)"
  by (simp add: example_adder_1_def example_adder_2_def add_horizontal_spacer_def
        vec_push_back_def vec_size_def vec_reserve_def vec_copy_back_inserter_def
        empty_vec_def Let_def)

theorem add_horizontal_spacer_revalidates_witness:
  "begin_adding_widgets 5 None = Inr example_adder \<and>
   run_calls [Add 7, AddHorizontalSpacer, AddLineSeperator] (example_adder, 1) =
     (None, example_adder_1, 2) \<and>
   add_horizontal_spacer (example_adder_1, 2) = (None, example_adder_2, 3) \<and>
   filter is_slot (wa_m_widgets example_adder_2) = [Slot 2 0, Slot 2 1] \<and>
   wa_m_widgets example_adder_2 = [Ext 7, Slot 2 0, Sep 5, Slot 2 1] \<and>
   v_capacity (wa_m_horz_spacers example_adder_2) = 3"
proof -
  have b: "begin_adding_widgets 5 None = Inr example_adder"
    by (simp add: begin_adding_widgets_def WidgetAdder_ctor_def example_adder_def
          WidgetAdder_default_def)
  have "(0::nat) < 1" by simp
  from add_horizontal_spacer_revalidates [OF this b example_adder_run example_adder_grow]
  show ?thesis
    using b example_adder_run example_adder_grow
    by (simp add: example_adder_1_def example_adder_2_def vec_size_def relocate_def)
qed

section \<open>Frame: the containment scan\<close>

lemma contained_in_iff: "contained_in h p g \<longleftrightarrow> list_contains h p (m_widgets g)"
  unfolding list_contains_def
  by (auto intro: contained_in.intros elim: contained_in.cases)

lemma list_contains_Nil [simp]: "\<not> list_contains h p []"
  by (simp add: list_contains_def)

lemma as_frame_Some_iff: "as_frame h w = Some c \<longleftrightarrow> (\<exists>a. w = Ext a \<and> h a = FrameObj c)"
  by (auto simp: as_frame_def split: wptr.splits widget_obj.splits)

lemma list_contains_Cons:
  "list_contains h p (w # ws) \<longleftrightarrow>
     w = p \<or> (case as_frame h w of Some c \<Rightarrow> list_contains h p (m_widgets c) | None \<Rightarrow> False)
       \<or> list_contains h p ws"
proof -
  have hd: "(case as_frame h w of Some c \<Rightarrow> list_contains h p (m_widgets c) | None \<Rightarrow> False)
        \<longleftrightarrow> (\<exists>a c. w = Ext a \<and> h a = FrameObj c \<and> contained_in h p c)"
  proof (cases "as_frame h w")
    case None
    then have "\<And>a c. w = Ext a \<Longrightarrow> h a \<noteq> FrameObj c"
      using as_frame_Some_iff[of h w] by auto
    with None show ?thesis by auto
  next
    case (Some c)
    then obtain a where "w = Ext a" "h a = FrameObj c"
      by (auto simp: as_frame_Some_iff)
    with Some show ?thesis by (auto simp: contained_in_iff[symmetric])
  qed
  show ?thesis
    unfolding hd by (auto simp: list_contains_def)
qed

lemma contains_loop_total:
  assumes ac: "acyclic_heap h rank"
  shows "(\<forall>b. Ext b \<in> set ws \<longrightarrow> rank b < n) \<Longrightarrow>
         contains_loop h ws p = Some (list_contains h p ws)"
proof (induction n arbitrary: ws rule: less_induct)
  case (less n)
  show ?case using less.prems
  proof (induction ws)
    case Nil
    show ?case by (subst contains_loop.simps) simp
  next
    case (Cons w ws)
    then have rest: "contains_loop h ws p = Some (list_contains h p ws)" by simp
    show ?case
    proof (cases "as_frame h w")
      case None
      with rest show ?thesis
        by (subst contains_loop.simps) (auto simp: list_contains_Cons)
    next
      case (Some c)
      then obtain a where w: "w = Ext a" and ha: "h a = FrameObj c"
        by (auto simp: as_frame_def split: wptr.splits widget_obj.splits)
      from Cons.prems w have ra: "rank a < n" by simp
      from ac ha have "\<forall>b. Ext b \<in> set (m_widgets c) \<longrightarrow> rank b < rank a"
        by (auto simp: acyclic_heap_def)
      from less.IH[OF ra this]
      have inner: "contains_loop h (m_widgets c) p = Some (list_contains h p (m_widgets c))" .
      show ?thesis
        by (subst contains_loop.simps) (auto simp: Some inner rest list_contains_Cons)
    qed
  qed
qed

lemma finite_ext_addrs: "finite {b. Ext b \<in> set ws}"
proof -
  have "inj Ext" by (simp add: inj_on_def)
  then have "finite (Ext -` set ws)" by (intro finite_vimageI) simp_all
  then show ?thesis by (simp add: vimage_def)
qed

lemma contains_total:
  assumes "acyclic_heap h rank"
  shows "contains h g p = Some (contained_in h p g)"
proof -
  let ?n = "Suc (Max (rank ` {b. Ext b \<in> set (m_widgets g)}))"
  have "\<forall>b. Ext b \<in> set (m_widgets g) \<longrightarrow> rank b < ?n"
    using finite_ext_addrs[of "m_widgets g"] by (simp add: less_Suc_eq_le)
  from contains_loop_total[OF assms this] show ?thesis
    by (simp add: contains_def contained_in_iff)
qed

lemma scan_contains_this_total:
  assumes "acyclic_heap h rank"
  shows "scan_contains_this h ws this =
           Some (\<exists>a g. Ext a \<in> set ws \<and> h a = FrameObj g \<and> contained_in h (Ext this) g)"
proof (induction ws)
  case Nil
  show ?case by simp
next
  case (Cons w ws)
  show ?case
  proof (cases "as_frame h w")
    case None
    then have "\<And>a g. w = Ext a \<Longrightarrow> h a \<noteq> FrameObj g"
      by (auto simp: as_frame_def split: wptr.splits widget_obj.splits)
    with None Cons show ?thesis by auto
  next
    case (Some c)
    then obtain a where w: "w = Ext a" and ha: "h a = FrameObj c"
      by (auto simp: as_frame_def split: wptr.splits widget_obj.splits)
    show ?thesis
    proof (cases "contained_in h (Ext this) c")
      case True
      with Some w ha show ?thesis by (auto simp: contains_total[OF assms])
    next
      case False
      with Cons Some w ha show ?thesis by (auto simp: contains_total[OF assms])
    qed
  qed
qed

lemma contained_in_rank:
  assumes "acyclic_heap h rank"
  shows "contained_in h p g \<Longrightarrow> h a = FrameObj g \<Longrightarrow> p = Ext b \<Longrightarrow> rank b < rank a"
proof (induction arbitrary: a rule: contained_in.induct)
  case (direct g)
  with assms show ?case by (auto simp: acyclic_heap_def)
next
  case (nested a' g c)
  from assms nested.hyps(1) nested.prems(1) have "rank a' < rank a"
    by (auto simp: acyclic_heap_def)
  moreover from nested.IH[OF nested.hyps(2) nested.prems(2)] have "rank b < rank a'" .
  ultimately show ?case by simp
qed

lemma nested_heap_acyclic: "acyclic_heap nested_heap (\<lambda>a. if a = 6 then 2 else if a = 5 then 1 else 0)"
  by (auto simp: acyclic_heap_def nested_heap_def frame_of_def split: if_splits)

lemma committing_adder_scan:
  "scan_contains_this nested_heap (wa_m_widgets (committing_adder styles)) 4 = Some False"
  by (simp add: committing_adder_def as_frame_def nested_heap_def)

text \<open>
  On an acyclic heap the scan returns: when the list handed to \<^verbatim>\<open>Frame::finalize_widgets\<close>
  holds a frame which directly or through further frames contains the target frame, the
  call raises an invalid-argument error and the heap, and with it the target's committed
  widget list and spacer storage, is what it was before the call. With the frame's own line
  separator, as an adder of the frame passes it, the error is "This frame may not contain
  itself".
\<close>

lemma finalize_widgets_rejects_on_acyclic_heap:
  assumes "h this = FrameObj f"
      and "acyclic_heap h rank"
      and "Ext a \<in> set widgets"
      and "h a = FrameObj g"
      and "contained_in h (Ext this) g"
  shows "finalize_widgets V this widgets spacers (Sep this) styles h =
           Some (Some (invalid_argument k_cannot_contain_this), h) \<and>
         (\<exists>msg. finalize_widgets V this widgets spacers the_line_sep styles h =
                   Some (Some (invalid_argument msg), h))"
proof -
  from assms(3-5) have "scan_contains_this h widgets this = Some True"
    by (auto simp: scan_contains_this_total[OF assms(2)])
  with assms(1) show ?thesis by (simp add: finalize_widgets_def)
qed

lemma finalize_widgets_rejects_nested_frame:
  "contained_in nested_heap (Ext 4) (frame_of [Ext 9, Ext 5]) \<and>
   finalize_widgets example_collaborators 4 [Ext 9, Ext 6] empty_vec (Sep 4) None nested_heap =
     Some (Some (invalid_argument k_cannot_contain_this), nested_heap)"
proof -
  have c2: "contained_in nested_heap (Ext 4) (frame_of [Ext 4])"
    by (rule contained_in.direct) (simp add: frame_of_def)
  have c3: "contained_in nested_heap (Ext 4) (frame_of [Ext 9, Ext 5])"
    by (rule contained_in.nested[where a = 5, OF _ _ c2])
       (simp_all add: frame_of_def nested_heap_def)
  have h4: "nested_heap 4 = FrameObj (frame_of [])" by (simp add: nested_heap_def)
  have h6: "nested_heap 6 = FrameObj (frame_of [Ext 9, Ext 5])" by (simp add: nested_heap_def)
  have m: "Ext 6 \<in> set [Ext 9, Ext 6]" by simp
  from finalize_widgets_rejects_on_acyclic_heap
         [OF h4 nested_heap_acyclic m h6 c3,
          where V = example_collaborators and spacers = empty_vec and styles = None] c3
  show ?thesis by simp
qed

text \<open>
  The scan asks each frame of the incoming list whether its committed widgets contain the
  target. For the target itself that is its own committed list, so a list that holds the
  target is accepted when the frame does not contain itself yet, and after the commit the
  frame is contained in itself.
\<close>

theorem finalize_widgets_accepts_target_itself:
  assumes "h this = FrameObj f"
      and "acyclic_heap h rank"
  shows "finalize_widgets V this [Ext this] spacers (Sep this) None h =
           Some (if check_invarients f then None else Some assertion_failure,
                 h(this := FrameObj (f\<lparr>m_widgets := [Ext this], m_horz_spacers := spacers\<rparr>))) \<and>
         contained_in (h(this := FrameObj (f\<lparr>m_widgets := [Ext this], m_horz_spacers := spacers\<rparr>)))
           (Ext this) (f\<lparr>m_widgets := [Ext this], m_horz_spacers := spacers\<rparr>)"
proof -
  have "\<not> contained_in h (Ext this) f"
    using contained_in_rank[OF assms(2) _ assms(1), of "Ext this" this] by auto
  with assms(1) have "scan_contains_this h [Ext this] this = Some False"
    by (simp add: as_frame_def contains_total[OF assms(2)])
  with assms(1) show ?thesis
    by (auto simp: finalize_widgets_def commit_widgets_def check_invarients_at_def
          check_invarients_def intro: contained_in.direct)
qed

theorem finalize_widgets_accepts_target_itself_witness:
  "finalize_widgets example_collaborators 4 [Ext 4] empty_vec (Sep 4) None nested_heap =
     Some (None, nested_heap(4 := FrameObj (frame_of [Ext 4])))"
  using finalize_widgets_accepts_target_itself
          [of nested_heap 4 "frame_of []" _ example_collaborators empty_vec,
           OF _ nested_heap_acyclic]
  by (simp add: nested_heap_def frame_of_def check_invarients_def empty_border_def)

text \<open>
  On an acyclic heap \<^verbatim>\<open>Frame::contains\<close> returns, and what it returns is whether the widget
  is in the frame's list or in the list of a frame reached through widget lists.
\<close>

theorem contains_decides_containment:
  assumes "acyclic_heap h rank"
  shows "contains h g p = Some (contained_in h p g)"
  using contains_total[OF assms] .

theorem contains_decides_containment_witness:
  "contains nested_heap (frame_of [Ext 9, Ext 5]) (Ext 4) = Some True \<and>
   contains nested_heap (frame_of [Ext 9, Ext 5]) (Ext 6) = Some False"
proof -
  have c2: "contained_in nested_heap (Ext 4) (frame_of [Ext 4])"
    by (rule contained_in.direct) (simp add: frame_of_def)
  have c3: "contained_in nested_heap (Ext 4) (frame_of [Ext 9, Ext 5])"
    by (rule contained_in.nested[where a = 5, OF _ _ c2])
       (simp_all add: frame_of_def nested_heap_def)
  have h6: "nested_heap 6 = FrameObj (frame_of [Ext 9, Ext 5])" by (simp add: nested_heap_def)
  have n: "\<not> contained_in nested_heap (Ext 6) (frame_of [Ext 9, Ext 5])"
    using contained_in_rank[OF nested_heap_acyclic _ h6, of "Ext 6" 6] by auto
  from contains_decides_containment [OF nested_heap_acyclic, of "frame_of [Ext 9, Ext 5]"] c3 n
  show ?thesis by simp
qed

text \<open>
  A frame that holds itself at the head of its widget list never answers
  \<^verbatim>\<open>Frame::contains\<close> for another widget: the loop enters the frame again before it looks
  at the rest of the list.
\<close>

lemma contains_loop_self_diverges:
  assumes ha: "h a = FrameObj g"
      and hd: "m_widgets g = Ext a # rest"
      and ne: "p \<noteq> Ext a"
  shows "contains_loop h (m_widgets g) p = None"
proof (rule ccontr)
  assume "contains_loop h (m_widgets g) p \<noteq> None"
  then obtain y where y: "contains_loop h (m_widgets g) p = Some y" by auto
  have fr: "as_frame h (Ext a) = Some g" using ha by (simp add: as_frame_def)
  have "\<not> (h = h \<and> m_widgets g = m_widgets g \<and> p = p)"
  proof (rule contains_loop.raw_induct
           [where P = "\<lambda>h' ws p' y'. \<not> (h' = h \<and> ws = m_widgets g \<and> p' = p)", OF _ y])
    fix c h' ws p' y'
    assume IH: "\<And>h' ws p' y'. c h' ws p' = Some y' \<Longrightarrow> \<not> (h' = h \<and> ws = m_widgets g \<and> p' = p)"
       and step: "(case ws of
                     [] \<Rightarrow> Some False
                   | widget # rest \<Rightarrow>
                       if widget = p' then Some True
                       else (case as_frame h' widget of
                               Some frame \<Rightarrow>
                                 Option.bind (c h' (m_widgets frame) p')
                                   (\<lambda>found. if found then Some True else c h' rest p')
                             | None \<Rightarrow> c h' rest p')) = Some y'"
    show "\<not> (h' = h \<and> ws = m_widgets g \<and> p' = p)"
    proof
      assume eq: "h' = h \<and> ws = m_widgets g \<and> p' = p"
      with step hd ne fr
      have "Option.bind (c h (m_widgets g) p)
              (\<lambda>found. if found then Some True else c h rest p) = Some y'"
        by auto
      then obtain b where "c h (m_widgets g) p = Some b"
        by (cases "c h (m_widgets g) p") auto
      from IH [OF this] show False by simp
    qed
  qed
  then show False by simp
qed

text \<open>
  C2. A listed frame that contains the target does not always make
  \<^verbatim>\<open>Frame::finalize_widgets\<close> fail with the error. Frames 4 and 5 are empty. Committing
  the list of frame 4 itself and frame 5 to frame 4, as an adder of frame 4 does after
  \<^verbatim>\<open>add\<close> of both, raises nothing. Frame 4 then holds frame 5 in its list, so it directly
  contains frame 5. Handing the list of frame 4 alone to \<^verbatim>\<open>finalize_widgets\<close> of frame 5
  raises no error: \<^verbatim>\<open>Frame::contains\<close> of frame 4 enters frame 4 again and again, and the
  call does not return.
\<close>

theorem finalize_widgets_diverges_on_self_containing_frame:
  "finalize_widgets example_collaborators 4 [Ext 4, Ext 5] empty_vec (Sep 4) None two_frames_heap =
     Some (None, self_containing_heap) \<and>
   self_containing_heap 4 = FrameObj (frame_of [Ext 4, Ext 5]) \<and>
   contained_in self_containing_heap (Ext 5) (frame_of [Ext 4, Ext 5]) \<and>
   finalize_widgets example_collaborators 5 [Ext 4] empty_vec (Sep 5) None self_containing_heap =
     None"
proof -
  have e: "contains_loop two_frames_heap [] p = Some False" for p
    by (subst contains_loop.simps) simp
  have first: "finalize_widgets example_collaborators 4 [Ext 4, Ext 5] empty_vec (Sep 4) None
                 two_frames_heap = Some (None, self_containing_heap)"
    by (simp add: finalize_widgets_def two_frames_heap_def [abs_def] self_containing_heap_def
          as_frame_def contains_def frame_of_def commit_widgets_def check_invarients_at_def
          check_invarients_def empty_border_def e [unfolded two_frames_heap_def [abs_def]])
  have h4: "self_containing_heap 4 = FrameObj (frame_of [Ext 4, Ext 5])"
    by (simp add: self_containing_heap_def)
  have "contains_loop self_containing_heap (m_widgets (frame_of [Ext 4, Ext 5])) (Ext 5) = None"
    by (rule contains_loop_self_diverges [where h = self_containing_heap and a = 4 and rest = "[Ext 5]", OF h4]) (simp_all add: frame_of_def)
  then have "scan_contains_this self_containing_heap [Ext 4] 5 = None"
    by (simp add: as_frame_def h4 contains_def)
  then have second: "finalize_widgets example_collaborators 5 [Ext 4] empty_vec (Sep 5) None
                 self_containing_heap = None"
    by (simp add: finalize_widgets_def self_containing_heap_def two_frames_heap_def)
  have "contained_in self_containing_heap (Ext 5) (frame_of [Ext 4, Ext 5])"
    by (rule contained_in.direct) (simp add: frame_of_def)
  with first h4 second show ?thesis by simp
qed


section \<open>Frame: the line separator handshake\<close>

text \<open>
  C9. \<^verbatim>\<open>Frame::finalize_widgets\<close> raises the invalid-argument error, with the heap
  unchanged, whenever the line separator pointer it is given is not the address of the
  frame's own line separator. So the destructor of an adder bound to the frame that holds
  another pointer raises and changes nothing; an adder bound to the frame whose destructor
  changes the heap holds the frame's own separator; and \<^verbatim>\<open>begin_adding_widgets\<close> gives
  an adder that holds it.
\<close>

theorem finalize_widgets_needs_own_line_seperator:
  assumes "h this = FrameObj f"
  shows "(the_line_sep \<noteq> Sep this \<longrightarrow>
            finalize_widgets V this widgets spacers the_line_sep styles h =
              Some (Some (invalid_argument k_must_know_line_sep), h)) \<and>
         (m_parent a = Some this \<and> m_the_line_sep a \<noteq> Sep this \<longrightarrow>
            WidgetAdder_dtor V 0 a h = Some (Some (invalid_argument k_must_know_line_sep), h)) \<and>
         (m_parent a = Some this \<and> WidgetAdder_dtor V n a h = Some (e, h') \<and> h' \<noteq> h \<longrightarrow>
            m_the_line_sep a = Sep this) \<and>
         (\<exists>b. begin_adding_widgets this styles = Inr b \<and> m_the_line_sep b = Sep this \<and>
              m_parent b = Some this \<and> m_styles b = styles \<and> wa_m_widgets b = [])"
  using assms
  by (auto simp: finalize_widgets_def WidgetAdder_dtor_def begin_adding_widgets_def
        WidgetAdder_ctor_def WidgetAdder_default_def split: if_splits)

theorem finalize_widgets_needs_own_line_seperator_witness:
  "finalize_widgets example_collaborators 4 [Ext 9] empty_vec (Sep 5) None nested_heap =
     Some (Some (invalid_argument k_must_know_line_sep), nested_heap) \<and>
   WidgetAdder_dtor example_collaborators 0 foreign_adder nested_heap =
     Some (Some (invalid_argument k_must_know_line_sep), nested_heap) \<and>
   WidgetAdder_dtor example_collaborators 0 (committing_adder None) nested_heap =
     Some (None, nested_heap(4 := FrameObj ((frame_of [])\<lparr>m_widgets := [Ext 9, Slot 2 0],
        m_horz_spacers := example_storage\<rparr>))) \<and>
   m_the_line_sep (committing_adder None) = Sep 4 \<and>
   begin_adding_widgets 4 None = Inr (WidgetAdder_default\<lparr>m_the_line_sep := Sep 4, m_parent := Some 4\<rparr>)"
proof -
  have h4: "nested_heap 4 = FrameObj (frame_of [])" by (simp add: nested_heap_def)
  have d: "WidgetAdder_dtor example_collaborators 0 (committing_adder None) nested_heap =
     Some (None, nested_heap(4 := FrameObj ((frame_of [])\<lparr>m_widgets := [Ext 9, Slot 2 0],
        m_horz_spacers := example_storage\<rparr>)))"
    by (simp add: WidgetAdder_dtor_def finalize_widgets_def h4 commit_widgets_def
          check_invarients_at_def check_invarients_def frame_of_def empty_border_def
          committing_adder_def as_frame_def nested_heap_def)
  have b: "begin_adding_widgets 4 None =
     Inr (WidgetAdder_default\<lparr>m_the_line_sep := Sep 4, m_parent := Some 4\<rparr>)"
    by (simp add: begin_adding_widgets_def WidgetAdder_ctor_def WidgetAdder_default_def)
  note T = finalize_widgets_needs_own_line_seperator
         [where h = nested_heap and this = 4 and f = "frame_of []" and V = example_collaborators,
          OF h4]
  have ne: "Sep 5 \<noteq> Sep 4" by simp
  from T [where the_line_sep = "Sep 5" and widgets = "[Ext 9]" and spacers = empty_vec
            and styles = None, THEN conjunct1, THEN mp, OF ne]
  have A: "finalize_widgets example_collaborators 4 [Ext 9] empty_vec (Sep 5) None nested_heap =
     Some (Some (invalid_argument k_must_know_line_sep), nested_heap)" .
  have "m_parent foreign_adder = Some 4 \<and> m_the_line_sep foreign_adder \<noteq> Sep 4"
    by (simp add: foreign_adder_def committing_adder_def)
  from T [where a = foreign_adder, THEN conjunct2, THEN conjunct1, THEN mp, OF this]
  have B: "WidgetAdder_dtor example_collaborators 0 foreign_adder nested_heap =
     Some (Some (invalid_argument k_must_know_line_sep), nested_heap)" .
  have "nested_heap(4 := FrameObj ((frame_of [])\<lparr>m_widgets := [Ext 9, Slot 2 0],
        m_horz_spacers := example_storage\<rparr>)) \<noteq> nested_heap"
    by (simp add: fun_upd_idem_iff h4 frame_of_def)
  with d have "m_parent (committing_adder None) = Some 4 \<and>
      WidgetAdder_dtor example_collaborators 0 (committing_adder None) nested_heap =
        Some (None, nested_heap(4 := FrameObj ((frame_of [])\<lparr>m_widgets := [Ext 9, Slot 2 0],
           m_horz_spacers := example_storage\<rparr>))) \<and>
      nested_heap(4 := FrameObj ((frame_of [])\<lparr>m_widgets := [Ext 9, Slot 2 0],
        m_horz_spacers := example_storage\<rparr>)) \<noteq> nested_heap"
    by (simp add: committing_adder_def)
  from T [where a = "committing_adder None" and n = 0, THEN conjunct2, THEN conjunct2,
          THEN conjunct1, THEN mp, OF this]
  have C: "m_the_line_sep (committing_adder None) = Sep 4" .
  from A B C d b show ?thesis by blast
qed

section \<open>WidgetAdder: the destructor\<close>

text \<open>
  C6. When an exception is propagating (\<^verbatim>\<open>std::uncaught_exceptions() > 0\<close>) the destructor
  of the adder returns without raising and leaves the heap as it is. Otherwise it calls
  \<^verbatim>\<open>finalize_widgets\<close> of the bound frame with its widget list, its spacer storage, its
  line separator pointer and its style map; when the two checks of that call pass, the
  frame's widget list and spacer storage become the adder's, and the style pass followed by
  the geometry pass runs on the committed heap exactly when a style map was supplied.
\<close>

theorem WidgetAdder_dtor_commits:
  "(0 < n \<longrightarrow> WidgetAdder_dtor V n a h = Some (None, h)) \<and>
   (m_parent a = Some p \<longrightarrow>
      WidgetAdder_dtor V 0 a h =
        finalize_widgets V p (wa_m_widgets a) (wa_m_horz_spacers a) (m_the_line_sep a)
          (m_styles a) h) \<and>
   (m_parent a = Some p \<and> h p = FrameObj f \<and> m_the_line_sep a = Sep p \<and>
    scan_contains_this h (wa_m_widgets a) p = Some False \<longrightarrow>
      WidgetAdder_dtor V 0 a h =
        (let h1 = h(p := FrameObj (f\<lparr>m_widgets := wa_m_widgets a,
                                       m_horz_spacers := wa_m_horz_spacers a\<rparr>))
         in case m_styles a of
              None \<Rightarrow> Some (if check_invarients f then None else Some assertion_failure, h1)
            | Some smap \<Rightarrow>
                (case set_style_impl V smap p h1 of
                   None \<Rightarrow> None
                 | Some (Some e, h2) \<Rightarrow> Some (Some e, h2)
                 | Some (None, h2) \<Rightarrow>
                     (case finalize_geometry_impl V p h2 of
                        None \<Rightarrow> None
                      | Some (Some e, h3) \<Rightarrow> Some (Some e, h3)
                      | Some (None, h3) \<Rightarrow> Some (check_invarients_at p h3)))))"
  by (auto simp: WidgetAdder_dtor_def finalize_widgets_def commit_widgets_def
        check_invarients_at_def check_invarients_def Let_def split: option.splits)

theorem WidgetAdder_dtor_commits_witness:
  "WidgetAdder_dtor example_collaborators 1 (committing_adder None) nested_heap =
     Some (None, nested_heap) \<and>
   WidgetAdder_dtor example_collaborators 0 (committing_adder None) nested_heap =
     Some (None, nested_heap(4 := FrameObj ((frame_of [])\<lparr>m_widgets := [Ext 9, Slot 2 0],
        m_horz_spacers := example_storage\<rparr>))) \<and>
   WidgetAdder_dtor example_collaborators 0 (committing_adder (Some example_styles)) nested_heap =
     Some (None, nested_heap(4 := FrameObj ((frame_of [])\<lparr>m_widgets := [Ext 9, Slot 2 0],
        m_padding := 8,
        m_horz_spacers := example_storage\<rparr>)))"
proof -
  let ?V = example_collaborators
  let ?h = "nested_heap(4 := FrameObj ((frame_of [])\<lparr>m_widgets := [Ext 9, Slot 2 0],
        m_horz_spacers := example_storage\<rparr>))"
  have h4: "nested_heap 4 = FrameObj (frame_of [])" by (simp add: nested_heap_def)
  have p: "m_parent (committing_adder s) = Some 4" "m_the_line_sep (committing_adder s) = Sep 4"
    "wa_m_widgets (committing_adder s) = [Ext 9, Slot 2 0]" "m_styles (committing_adder s) = s"
    "wa_m_horz_spacers (committing_adder s) = example_storage"
    for s by (simp_all add: committing_adder_def)
  have pre: "m_parent (committing_adder s) = Some 4 \<and> nested_heap 4 = FrameObj (frame_of []) \<and>
      m_the_line_sep (committing_adder s) = Sep 4 \<and>
      scan_contains_this nested_heap (wa_m_widgets (committing_adder s)) 4 = Some False" for s
    using committing_adder_scan h4 p(1,2) by blast
  note T = WidgetAdder_dtor_commits [of 1 ?V _ nested_heap 4 "frame_of []"]
  have "(0::nat) < 1" by simp
  from T [of "committing_adder None", THEN conjunct1, THEN mp, OF this]
  have A: "WidgetAdder_dtor ?V 1 (committing_adder None) nested_heap = Some (None, nested_heap)" .
  have chk: "check_invarients (frame_of [])"
    by (simp add: check_invarients_def frame_of_def empty_border_def)
  have B: "WidgetAdder_dtor ?V 0 (committing_adder None) nested_heap = Some (None, ?h)"
    by (simp add: T [of "committing_adder None", THEN conjunct2, THEN conjunct2, THEN mp,
                     OF pre [of None]] p chk)
  have C: "WidgetAdder_dtor ?V 0 (committing_adder (Some example_styles)) nested_heap =
     Some (None, nested_heap(4 := FrameObj ((frame_of [])\<lparr>m_widgets := [Ext 9, Slot 2 0],
        m_padding := 8,
        m_horz_spacers := example_storage\<rparr>)))"
    by (simp add: T [of "committing_adder (Some example_styles)", THEN conjunct2, THEN conjunct2,
                     THEN mp, OF pre [of "Some example_styles"]] p)
       (simp add: example_collaborators_def check_invarients_at_def check_invarients_def
          frame_of_def empty_border_def example_styles_def)
  from A B C show ?thesis by blast
qed

section \<open>Frame: the size to fit of an empty frame\<close>

text \<open>
  C7. For a frame without widgets \<^verbatim>\<open>compute_size_to_fit\<close> returns, as width, the larger of
  zero and the title's width accommodation plus two paddings, which is that sum whenever the
  padding and the accommodation are not negative, and, as height, the offset between the
  border's widget start and its location. For any frame the size returned is the one an empty
  frame would get from the same accumulators, with three paddings added to the width and to
  the height exactly when the widget list is not empty.
\<close>

theorem compute_size_to_fit_empty_frame:
  "(m_widgets f = [] \<longrightarrow>
      compute_size_to_fit h this f =
        Some (Inr (max 0 (fb_title_width_accommodation (m_border f) + m_padding f * 2),
                   snd (fb_widget_start (m_border f)) - snd (fb_location (m_border f))))) \<and>
   (m_widgets f = [] \<and> 0 \<le> m_padding f \<and> 0 \<le> fb_title_width_accommodation (m_border f) \<longrightarrow>
      compute_size_to_fit h this f =
        Some (Inr (fb_title_width_accommodation (m_border f) + m_padding f * 2,
                   snd (fb_widget_start (m_border f)) - snd (fb_location (m_border f))))) \<and>
   fit_finish f st =
     (case fit_finish (f\<lparr>m_widgets := []\<rparr>) st of
        (total_width, total_height) \<Rightarrow>
          if m_widgets f = [] then (total_width, total_height)
          else (total_width + m_padding f * 3, total_height + m_padding f * 3))"
proof -
  have loop: "fit_loop h this f [] (0, 0, 0, 0, 0) = Some (Inr (0, 0, 0, 0, 0))"
    by (subst fit_loop.simps) simp
  have a: "m_widgets f = [] \<Longrightarrow>
      compute_size_to_fit h this f =
        Some (Inr (max 0 (fb_title_width_accommodation (m_border f) + m_padding f * 2),
                   snd (fb_widget_start (m_border f)) - snd (fb_location (m_border f))))"
    by (simp add: compute_size_to_fit_def loop fit_finish_def)
  have b: "fit_finish f st =
     (case fit_finish (f\<lparr>m_widgets := []\<rparr>) st of
        (total_width, total_height) \<Rightarrow>
          if m_widgets f = [] then (total_width, total_height)
          else (total_width + m_padding f * 3, total_height + m_padding f * 3))"
    by (cases st) (simp add: fit_finish_def Let_def split: prod.splits)
  from a b show ?thesis by (auto simp: max_def)
qed

theorem compute_size_to_fit_empty_frame_witness:
  "compute_size_to_fit leaf_heap 4 (layout_frame [] []) = Some (Inr (80, 25)) \<and>
   fit_finish (layout_frame [Ext 9] []) (0, 50, 0, 20, 0) = (110, 85) \<and>
   fit_finish (layout_frame [] []) (0, 50, 0, 20, 0) = (80, 55)"
proof -
  have e: "m_widgets (layout_frame [] []) = [] \<and> 0 \<le> m_padding (layout_frame [] []) \<and>
           0 \<le> fb_title_width_accommodation (m_border (layout_frame [] []))"
    by (simp add: layout_frame_def titled_border_def)
  note T = compute_size_to_fit_empty_frame [of "layout_frame [] []" leaf_heap 4]
  from T [THEN conjunct2, THEN conjunct1, THEN mp, OF e]
  have A: "compute_size_to_fit leaf_heap 4 (layout_frame [] []) = Some (Inr (80, 25))"
    by (simp add: layout_frame_def titled_border_def)
  have B: "fit_finish (layout_frame [] []) (0, 50, 0, 20, 0) = (80, 55)"
    by (simp add: fit_finish_def layout_frame_def titled_border_def)
  have "layout_frame [Ext 9] []\<lparr>m_widgets := []\<rparr> = layout_frame [] []"
    by (simp add: layout_frame_def)
  with compute_size_to_fit_empty_frame
         [of "layout_frame [Ext 9] []" leaf_heap 4 "(0, 50, 0, 20, 0)", THEN conjunct2, THEN conjunct2] B
  have C: "fit_finish (layout_frame [Ext 9] []) (0, 50, 0, 20, 0) = (110, 85)"
    by (simp add: layout_frame_def)
  from A B C show ?thesis by simp
qed

text \<open>
  A frame of the list whose width and height are both zero is asked for its size to fit, but
  only the height of the answer is used: the line width grows by the advance of the child,
  which reads the child's own width, zero. The size to fit of a frame whose only widget is
  such a child does not depend on the width the child would fit to.
\<close>

theorem fitted_width_of_child_frame_unused:
  assumes "m_widgets f = [Ext a]"
      and "h a = FrameObj g"
      and "fb_width (m_border g) = 0" and "fb_height (m_border g) = 0"
      and "compute_size_to_fit h a g = Some (Inr (cw, ch))"
  shows "compute_size_to_fit h this f =
           Some (Inr (fit_finish f (0, 0 + (0 + m_padding f + 0), 0, max 0 ch, 0)))"
proof -
  from assms(5) obtain r where
    lr: "fit_loop h a g (m_widgets g) (0, 0, 0, 0, 0) = Some r"
    and mr: "map_sum id (fit_finish g) r = Inr (cw, ch)"
    by (auto simp: compute_size_to_fit_def)
  from mr obtain st' where r: "r = Inr st'" and fin: "fit_finish g st' = (cw, ch)"
    by (cases r) auto
  from lr r have l: "fit_loop h a g (m_widgets g) (0, 0, 0, 0, 0) = Some (Inr st')" by simp
  have nil: "fit_loop h this f [] st = Some (Inr st)" for st
    by (subst fit_loop.simps) simp
  have adv: "get_widget_advance h this f (Ext a) = 0 + m_padding f"
    using assms(2,3)
    by (simp add: get_widget_advance_def widget_width_def is_line_seperator_def
          is_horizontal_spacer_def)
  have "fit_loop h this f [Ext a] (0, 0, 0, 0, 0) =
          Some (Inr (0, 0 + (0 + m_padding f + 0), 0, max 0 ch, 0))"
    using assms(2-4) l fin
    by (subst fit_loop.simps)
       (simp add: nil adv widget_width_def widget_height_def is_horizontal_spacer_def
          is_line_seperator_def)
  with assms(1) show ?thesis by (simp add: compute_size_to_fit_def)
qed

theorem fitted_width_of_child_frame_unused_witness:
  "compute_size_to_fit nested_heap 5 (frame_of [Ext 4]) = Some (Inr (25, 20)) \<and>
   compute_size_to_fit nested_heap 7 (layout_frame [Ext 5] []) = Some (Inr (110, 85))"
proof -
  have nil: "fit_loop h this f [] st = Some (Inr st)" for h this f st
    by (subst fit_loop.simps) simp
  have h4: "nested_heap 4 = FrameObj (frame_of [])" and h5: "nested_heap 5 = FrameObj (frame_of [Ext 4])"
    by (simp_all add: nested_heap_def)
  have z: "fb_width (m_border (frame_of ws)) = 0" "fb_height (m_border (frame_of ws)) = 0" for ws
    by (simp_all add: frame_of_def empty_border_def)
  have c4: "compute_size_to_fit nested_heap 4 (frame_of []) = Some (Inr (10, 0))"
    by (simp add: compute_size_to_fit_def frame_of_def nil fit_finish_def empty_border_def)
  have w5: "m_widgets (frame_of [Ext 4]) = [Ext 4]" by (simp add: frame_of_def)
  from fitted_width_of_child_frame_unused [OF w5 h4 z c4, of 5]
  have c5: "compute_size_to_fit nested_heap 5 (frame_of [Ext 4]) = Some (Inr (25, 20))"
    by (simp add: fit_finish_def frame_of_def empty_border_def)
  have w7: "m_widgets (layout_frame [Ext 5] []) = [Ext 5]" by (simp add: layout_frame_def)
  from fitted_width_of_child_frame_unused [OF w7 h5 z c5, of 7]
  have "compute_size_to_fit nested_heap 7 (layout_frame [Ext 5] []) = Some (Inr (110, 85))"
    by (simp add: fit_finish_def layout_frame_def titled_border_def)
  with c5 show ?thesis by simp
qed

section \<open>Frame: a sequence that fits on one line\<close>

lemma place_loop_one_line:
  assumes pad: "fle (Fin 0) (rd_padding rd)"
      and "\<forall>w \<in> set ws. \<not> is_line_seperator this w \<and> fle (Fin 0) (rd_widget_width rd w)"
      and "fle (foldl fadd s (map (get_widget_advance_f this f rd) ws)) k_right_limit"
      and "canonical s"
      and "canonical x"
      and "x = NaN \<or> fle x s"
      and "fle pad_fix (Fin 0)"
  shows "map fst (place_loop this f rd start_x k_right_limit ws (x, y, line_height, pad_fix)) = ws \<and>
         (\<forall>q \<in> set (place_loop this f rd start_x k_right_limit ws (x, y, line_height, pad_fix)).
            snd (snd q) = y)"
  using assms(2-)
proof (induction ws arbitrary: s x line_height pad_fix)
  case Nil
  show ?case by simp
next
  case (Cons w ws)
  let ?a = "get_widget_advance_f this f rd w"
  let ?s = "fadd s ?a"
  have adv: "fle (Fin 0) (get_widget_advance_f this f rd v)" if "v \<in> set (w # ws)" for v
    using that Cons.prems(1) pad by (auto simp: get_widget_advance_f_def intro!: fadd_nonneg)
  from Cons.prems(1) have ns: "\<not> is_line_seperator this w" by simp
  from Cons.prems(2) have tot: "fle (foldl fadd ?s (map (get_widget_advance_f this f rd) ws)) k_right_limit"
    by simp
  have s_le: "fle ?s k_right_limit"
    by (rule foldl_fadd_ge [OF _ canonical_fadd_any tot]) (use adv in auto)
  then have s_ok: "?s \<noteq> NaN" by (auto simp: fle_NaN)
  have step: "fadd z ?a = NaN \<or> fle (fadd z ?a) ?s" if "z = NaN \<or> fle z s" for z
    using that fadd_mono_left [of z s ?a] s_ok by (auto simp: fadd_NaN)
  have fits: "\<not> fgt (fadd x ?a) k_right_limit"
  proof -
    from step [OF Cons.prems(5)] show ?thesis
    proof
      assume "fadd x ?a = NaN"
      then show ?thesis by (simp add: fgt_def flt_NaN)
    next
      assume "fle (fadd x ?a) ?s"
      then have "fle (fadd x ?a) k_right_limit" using s_le by (rule fle_trans)
      then show ?thesis by (simp add: fgt_def fle_not_flt)
    qed
  qed
  let ?x2 = "if is_horizontal_spacer f w then fadd x pad_fix else x"
  have x2: "?x2 = NaN \<or> fle ?x2 s"
  proof (cases "is_horizontal_spacer f w")
    case False
    then show ?thesis using Cons.prems(5) by simp
  next
    case spacer: True
    show ?thesis
    proof (cases "fadd x pad_fix = NaN")
      case True
      with spacer show ?thesis by simp
    next
      case False
      then have xn: "x \<noteq> NaN" by (auto simp: fadd_NaN)
      from fadd_nonpos_le [OF Cons.prems(4) Cons.prems(6) False]
      have "fle (fadd x pad_fix) x" .
      moreover from Cons.prems(5) xn have "fle x s" by simp
      ultimately have "fle (fadd x pad_fix) s" by (rule fle_trans)
      with spacer show ?thesis by simp
    qed
  qed
  have neg: "fle (fneg (rd_padding rd)) (Fin 0)"
    using pad by (cases "rd_padding rd") auto
  from Cons.IH [OF _ tot canonical_fadd_any canonical_fadd_any step [OF x2] neg] Cons.prems(1)
  have ih: "map fst (place_loop this f rd start_x k_right_limit ws
               (fadd ?x2 ?a, y, fmax (rd_widget_height rd w) line_height,
                fneg (rd_padding rd))) = ws \<and>
         (\<forall>q \<in> set (place_loop this f rd start_x k_right_limit ws
               (fadd ?x2 ?a, y, fmax (rd_widget_height rd w) line_height,
                fneg (rd_padding rd))). snd (snd q) = y)"
    by simp
  show ?case using ns fits ih by (simp add: Let_def)
qed

text \<open>
  C4, as the code has it. Take a padding that is not negative and a widget list without line
  separators and null pointers whose widgets have widths that are not negative. The total
  advance is taken as the pass accumulates it: the starting cursor, \<^verbatim>\<open>widget_start().x\<close>
  plus the padding, and the advances of the widgets, summed in list order with every sum
  rounded. If it is at most the right limit, the frame's location plus its width, the pass
  places every widget, in order, on one line: the y-coordinate of each is the top of the
  interior, \<^verbatim>\<open>widget_start().y\<close>, plus the padding.
\<close>

theorem positioning_one_line:
  assumes "fle (Fin 0) (rd_padding rd)"
      and "Null \<notin> set (m_widgets f)"
      and "Sep this \<notin> set (m_widgets f)"
      and "\<forall>w \<in> set (m_widgets f). fle (Fin 0) (rd_widget_width rd w)"
      and "fle (accumulated_advance this f rd) (fadd (fst (rd_location rd)) (rd_width rd))"
  shows "\<exists>ps. position_widgets this f rd = Inr ps \<and> map fst ps = m_widgets f \<and>
           (\<forall>q \<in> set ps. snd (snd q) = fadd (snd (rd_widget_start rd)) (rd_padding rd))"
proof -
  let ?start = "fadd (fst (rd_widget_start rd)) (rd_padding rd)"
  have ws: "\<forall>w \<in> set (m_widgets f). \<not> is_line_seperator this w \<and> fle (Fin 0) (rd_widget_width rd w)"
    using assms(3,4) by (auto simp: is_line_seperator_def)
  have start: "?start = NaN \<or> fle ?start ?start"
    by (cases ?start) auto
  have zero: "fle (Fin 0) (Fin 0)" by simp
  from place_loop_one_line [OF assms(1) ws assms(5) [unfolded accumulated_advance_def]
         canonical_fadd_any canonical_fadd_any start zero] assms(2)
  show ?thesis by (simp add: position_widgets_def Let_def)
qed

theorem positioning_one_line_witness:
  "fle (accumulated_advance 4 (layout_frame [Ext 9, Ext 8, Ext 7] [])
          (readings_of leaf_heap (layout_frame [Ext 9, Ext 8, Ext 7] [])))
       (Fin 200) \<and>
   position_widgets 4 (layout_frame [Ext 9, Ext 8, Ext 7] [])
       (readings_of leaf_heap (layout_frame [Ext 9, Ext 8, Ext 7] [])) =
     Inr [(Ext 9, Fin 15, Fin 35), (Ext 8, Fin 65, Fin 35), (Ext 7, Fin 115, Fin 35)]"
proof -
  let ?f = "layout_frame [Ext 9, Ext 8, Ext 7] []"
  let ?rd = "readings_of leaf_heap ?f"
  have a: "fle (Fin 0) (rd_padding ?rd)" "Null \<notin> set (m_widgets ?f)"
    "Sep 4 \<notin> set (m_widgets ?f)"
    "\<forall>w \<in> set (m_widgets ?f). fle (Fin 0) (rd_widget_width ?rd w)"
    by (simp_all add: readings_of_def layout_frame_def widget_width_def leaf_heap_def)
  have total: "accumulated_advance 4 ?f ?rd = Fin 165"
    by (simp add: accumulated_advance_def readings_of_def layout_frame_def titled_border_def
          widget_width_def leaf_heap_def get_widget_advance_f_def is_line_seperator_def
          is_horizontal_spacer_def to_float_numeral)
  have limit: "fadd (fst (rd_location ?rd)) (rd_width ?rd) = Fin 200"
    by (simp add: readings_of_def layout_frame_def titled_border_def to_float_numeral)
  have b: "fle (accumulated_advance 4 ?f ?rd) (fadd (fst (rd_location ?rd)) (rd_width ?rd))"
    by (simp add: total limit)
  from positioning_one_line [OF a b]
  obtain ps where "position_widgets 4 ?f ?rd = Inr ps" by blast
  then have "position_widgets 4 ?f ?rd =
               Inr [(Ext 9, Fin 15, Fin 35), (Ext 8, Fin 65, Fin 35), (Ext 7, Fin 115, Fin 35)]"
    by (simp add: position_widgets_def readings_of_def layout_frame_def titled_border_def
          widget_width_def widget_height_def leaf_heap_def get_widget_advance_f_def
          is_line_seperator_def is_horizontal_spacer_def fgt_def fmax_def to_float_numeral
          Let_def)
  with total show ?thesis by simp
qed

text \<open>The sums of the measured frame: two of them are ties and round up to the even neighbour.\<close>

lemmas measured_sums =
  to_float_grid [of 13644595 "- 17", simplified]
  to_float_grid [of 49 "- 1", simplified]
  to_float_grid [of 69 "- 1", simplified]
  to_float_grid [of 12137267 "- 18", simplified]
  to_float_grid [of 6107955 "- 18", simplified]
  to_float_in_binade [of 6 "21181235 / 262144", simplified round_half_even_def, simplified]
  to_float_in_binade [of 6 "27289191 / 262144", simplified round_half_even_def, simplified]

text \<open>
  Four ways in which the pass departs from the statement it is measured against. The
  y-coordinate is not the top of the interior itself: with padding 10 a single widget that
  fits is placed at y = 35 in a frame whose interior starts at y = 25. An exact total advance
  within the limit does not keep the widgets on one line: in the measured frame, whose
  numbers are all binary32 values, the starting cursor and the three advances add up to the
  right limit exactly, yet the cursor the pass accumulates is rounded up twice and the third
  widget is wrapped to y = 55. The limit the pass tests against is not the interior width:
  in the narrow frame two widgets of total advance 100 meet the interior width of 100, and
  the second is wrapped to y = 65. And a total within the limit says nothing of the first
  widget when a later width is negative: widths 200 and -150 have total advance 70, the
  first widget does not fit and both are placed on a second line, at y = 45.
\<close>

theorem positioning_one_line_counterexample:
  "(sum_list (map (get_widget_advance leaf_heap 4 (layout_frame [Ext 9] []))
                  (m_widgets (layout_frame [Ext 9] [])))
      \<le> fb_width_available_for_widgets (m_border (layout_frame [Ext 9] [])) \<and>
    position_widgets 4 (layout_frame [Ext 9] []) (readings_of leaf_heap (layout_frame [Ext 9] [])) =
      Inr [(Ext 9, Fin 15, Fin 35)] \<and>
    snd (rd_widget_start (readings_of leaf_heap (layout_frame [Ext 9] []))) = Fin 25) \<and>
   (canonical (Fin (39 / 2)) \<and> canonical (Fin (10826547 / 262144)) \<and>
    canonical (Fin (4797235 / 262144)) \<and> canonical (Fin (13644595 / 131072)) \<and>
    fst (fb_widget_start (m_border measured_frame)) + m_padding measured_frame
      + sum_list (map (get_widget_advance measured_heap 4 measured_frame) (m_widgets measured_frame))
      \<le> fst (fb_location (m_border measured_frame)) + fb_width (m_border measured_frame) \<and>
    position_widgets 4 measured_frame (readings_of measured_heap measured_frame) =
      Inr [(Ext 7, Fin 10, Fin 30), (Ext 8, Fin (69 / 2), Fin 30), (Ext 9, Fin 10, Fin 55)]) \<and>
   (sum_list (map (get_widget_advance leaf_heap 4 narrow_frame) (m_widgets narrow_frame))
      \<le> fb_width_available_for_widgets (m_border narrow_frame) \<and>
    position_widgets 4 narrow_frame (readings_of leaf_heap narrow_frame) =
      Inr [(Ext 9, Fin 15, Fin 35), (Ext 8, Fin 15, Fin 65)]) \<and>
   (sum_list (map (get_widget_advance uneven_heap 4 (layout_frame [Ext 9, Ext 8] []))
                  (m_widgets (layout_frame [Ext 9, Ext 8] [])))
      \<le> fb_width_available_for_widgets (m_border (layout_frame [Ext 9, Ext 8] [])) \<and>
    accumulated_advance 4 (layout_frame [Ext 9, Ext 8] [])
        (readings_of uneven_heap (layout_frame [Ext 9, Ext 8] [])) = Fin 85 \<and>
    position_widgets 4 (layout_frame [Ext 9, Ext 8] [])
        (readings_of uneven_heap (layout_frame [Ext 9, Ext 8] [])) =
      Inr [(Ext 9, Fin 15, Fin 45), (Ext 8, Fin 225, Fin 45)])"
proof -
  have first:
    "sum_list (map (get_widget_advance leaf_heap 4 (layout_frame [Ext 9] []))
                  (m_widgets (layout_frame [Ext 9] [])))
      \<le> fb_width_available_for_widgets (m_border (layout_frame [Ext 9] [])) \<and>
    position_widgets 4 (layout_frame [Ext 9] []) (readings_of leaf_heap (layout_frame [Ext 9] [])) =
      Inr [(Ext 9, Fin 15, Fin 35)] \<and>
    snd (rd_widget_start (readings_of leaf_heap (layout_frame [Ext 9] []))) = Fin 25"
    by (simp add: position_widgets_def readings_of_def layout_frame_def titled_border_def
          widget_width_def widget_height_def leaf_heap_def get_widget_advance_def
          get_widget_advance_f_def is_line_seperator_def is_horizontal_spacer_def fgt_def
          fmax_def to_float_numeral Let_def)
  have grid: "canonical (Fin (39 / 2))" "canonical (Fin (10826547 / 262144))"
    "canonical (Fin (4797235 / 262144))" "canonical (Fin (13644595 / 131072))"
    using round32_grid [of 39 "- 1"] round32_grid [of 10826547 "- 18"]
          round32_grid [of 4797235 "- 18"] round32_grid [of 13644595 "- 17"]
    by simp_all
  have exact:
    "fst (fb_widget_start (m_border measured_frame)) + m_padding measured_frame
      + sum_list (map (get_widget_advance measured_heap 4 measured_frame) (m_widgets measured_frame))
      \<le> fst (fb_location (m_border measured_frame)) + fb_width (m_border measured_frame)"
    by (simp add: measured_frame_def measured_heap_def get_widget_advance_def widget_width_def
          is_line_seperator_def is_horizontal_spacer_def empty_vec_def)
  have second:
    "position_widgets 4 measured_frame (readings_of measured_heap measured_frame) =
      Inr [(Ext 7, Fin 10, Fin 30), (Ext 8, Fin (69 / 2), Fin 30), (Ext 9, Fin 10, Fin 55)]"
    by (simp add: position_widgets_def measured_frame_def measured_heap_def readings_of_def
          get_widget_advance_f_def is_line_seperator_def is_horizontal_spacer_def empty_vec_def
          widget_width_def widget_height_def fgt_def fmax_def to_float_numeral measured_sums
          Let_def)
  have third:
    "sum_list (map (get_widget_advance leaf_heap 4 narrow_frame) (m_widgets narrow_frame))
      \<le> fb_width_available_for_widgets (m_border narrow_frame) \<and>
    position_widgets 4 narrow_frame (readings_of leaf_heap narrow_frame) =
      Inr [(Ext 9, Fin 15, Fin 35), (Ext 8, Fin 15, Fin 65)]"
    by (simp add: position_widgets_def narrow_frame_def narrow_border_def leaf_heap_def
          readings_of_def get_widget_advance_def get_widget_advance_f_def is_line_seperator_def
          is_horizontal_spacer_def empty_vec_def widget_width_def widget_height_def fgt_def
          fmax_def to_float_numeral Let_def)
  have fourth:
    "sum_list (map (get_widget_advance uneven_heap 4 (layout_frame [Ext 9, Ext 8] []))
                  (m_widgets (layout_frame [Ext 9, Ext 8] [])))
      \<le> fb_width_available_for_widgets (m_border (layout_frame [Ext 9, Ext 8] [])) \<and>
    accumulated_advance 4 (layout_frame [Ext 9, Ext 8] [])
        (readings_of uneven_heap (layout_frame [Ext 9, Ext 8] [])) = Fin 85 \<and>
    position_widgets 4 (layout_frame [Ext 9, Ext 8] [])
        (readings_of uneven_heap (layout_frame [Ext 9, Ext 8] [])) =
      Inr [(Ext 9, Fin 15, Fin 45), (Ext 8, Fin 225, Fin 45)]"
    by (simp add: position_widgets_def accumulated_advance_def readings_of_def layout_frame_def
          titled_border_def widget_width_def widget_height_def uneven_heap_def
          get_widget_advance_def get_widget_advance_f_def is_line_seperator_def
          is_horizontal_spacer_def fgt_def fmax_def to_float_numeral to_float_neg_numeral
          Let_def)
  from first grid exact second third fourth show ?thesis by blast
qed

section \<open>Frame: the widths the spacer pass assigns\<close>

lemma same_shape_refl [simp]: "same_shape f f"
  by (simp add: same_shape_def)

lemma same_shape_trans: "same_shape f g \<Longrightarrow> same_shape g k \<Longrightarrow> same_shape f k"
  by (simp add: same_shape_def)

lemma same_shape_is_hs: "same_shape f g \<Longrightarrow> is_horizontal_spacer g p = is_horizontal_spacer f p"
  by (auto simp: same_shape_def is_horizontal_spacer_def vec_size_def split: wptr.splits)

lemma same_shape_advance:
  "same_shape f g \<Longrightarrow> \<not> is_horizontal_spacer f p \<Longrightarrow>
   get_widget_advance h this g p = get_widget_advance h this f p"
  using same_shape_is_hs[of f g p]
  by (auto simp: get_widget_advance_def widget_width_def same_shape_def split: wptr.splits)

lemma set_width_shape: "same_shape f (set_width p w f)"
  by (auto simp: same_shape_def set_width_def split: wptr.splits)

lemma set_loop_shape:
  "same_shape f (foldl (\<lambda>g jtr. if \<not> is_horizontal_spacer g jtr then g else set_width jtr w g) f sg)"
proof (induction sg arbitrary: f)
  case Nil
  show ?case by simp
next
  case (Cons a sg)
  let ?f1 = "if \<not> is_horizontal_spacer f a then f else set_width a w f"
  have "same_shape f ?f1" by (simp add: set_width_shape)
  from same_shape_trans[OF this Cons.IH[of ?f1]] show ?case by simp
qed

lemma shsw_fst [simp]: "fst (set_horz_spacer_widths b e los pad f) = e"
  by (simp add: set_horz_spacer_widths_def Let_def)

lemma shsw_shape: "same_shape f (snd (set_horz_spacer_widths b e los pad f))"
  by (simp add: set_horz_spacer_widths_def Let_def set_loop_shape)

lemma apply_line_shape: "same_shape g (apply_line W g l)"
  by (cases l) (simp add: apply_line_def shsw_shape)

lemma foldl_apply_line_shape: "same_shape g (foldl (apply_line W) g ls)"
proof (induction ls arbitrary: g)
  case Nil
  show ?case by simp
next
  case (Cons l ls)
  from same_shape_trans[OF apply_line_shape Cons.IH] show ?case by simp
qed

lemma uhs_loop_lines:
  "same_shape f g \<Longrightarrow>
   uhs_loop h this W itr rest (x, pad_fix, line_begin, g) =
     (case uhs_lines h this f W itr rest (x, pad_fix, line_begin) of
        (ls, x', pad_fix', line_begin') \<Rightarrow> (x', pad_fix', line_begin', foldl (apply_line W) g ls))"
proof (induction rest arbitrary: itr x pad_fix line_begin g)
  case Nil
  show ?case by simp
next
  case (Cons w rest)
  note hs = same_shape_is_hs[OF Cons.prems, of w]
  show ?case
  proof (cases "is_horizontal_spacer f w")
    case True
    with hs Cons.IH[OF Cons.prems] show ?thesis by simp
  next
    case False
    note adv = same_shape_advance[OF Cons.prems False, of h this]
    have pad: "m_padding g = m_padding f" using Cons.prems by (simp add: same_shape_def)
    show ?thesis
    proof (cases "x + get_widget_advance h this f w > W \<or> is_line_seperator this w")
      case True
      obtain lb' g' where eq:
        "set_horz_spacer_widths line_begin itr (max (W - x) 0) (m_padding g) g = (lb', g')"
        by (cases "set_horz_spacer_widths line_begin itr (max (W - x) 0) (m_padding g) g")
      from shsw_fst[of line_begin itr "max (W - x) 0" "m_padding g" g] eq
      have lb': "lb' = itr" by simp
      from shsw_shape[of g line_begin itr "max (W - x) 0" "m_padding g"] eq
      have "same_shape g g'" by simp
      with Cons.prems have sh: "same_shape f g'" by (rule same_shape_trans)
      from eq have al: "apply_line W g (line_begin, itr, x) = g'"
        by (simp add: apply_line_def)
      show ?thesis
        using False hs adv True Cons.IH[OF sh] lb'
        by (simp add: Let_def eq al split: prod.splits)
    next
      case nb: False
      with False hs adv pad Cons.IH[OF Cons.prems] show ?thesis by (simp add: Let_def)
    qed
  qed
qed

lemma update_horizontal_spacers_lines:
  assumes "0 \<le> fb_width_available_for_widgets (m_border f)" and "Null \<notin> set (m_widgets f)"
  shows "update_horizontal_spacers h this f =
           Inr (foldl (apply_line (fb_width_available_for_widgets (m_border f))) f
                  (spacer_lines h this f))"
proof -
  let ?W = "fb_width_available_for_widgets (m_border f)"
  obtain ls x pf lb where L: "uhs_lines h this f ?W 0 (m_widgets f) (0, 0, 0) = (ls, x, pf, lb)"
    by (metis prod_cases4)
  let ?g = "foldl (apply_line ?W) f ls"
  have sh: "same_shape f ?g" by (rule foldl_apply_line_shape)
  then have w: "m_widgets ?g = m_widgets f" "m_padding ?g = m_padding f"
    by (simp_all add: same_shape_def)
  have loop: "uhs_loop h this ?W 0 (m_widgets f) (0, 0, 0, f) = (x, pf, lb, ?g)"
    using uhs_loop_lines[of f f h this ?W 0 "m_widgets f" 0 0 0] L by simp
  show ?thesis
    using assms
    by (simp add: update_horizontal_spacers_def Let_def loop spacer_lines_def L w apply_line_def)
qed


lemma range_of_all [simp]: "range_of ws 0 (length ws) = ws"
  by (simp add: range_of_def)

lemma range_of_empty [simp]: "range_of ws a a = []"
  by (simp add: range_of_def)












lemma used_width_Nil [simp]: "used_width h this f [] = 0"
  by (simp add: used_width_def non_spacer_advances_def)












lemma layout_frame_update:
  "update_horizontal_spacers leaf_heap 4
     (layout_frame [Ext 9, Slot 2 0, Sep 4, Slot 2 1, Ext 9, Slot 2 2] [0, 0, 0]) =
   Inr (layout_frame [Ext 9, Slot 2 0, Sep 4, Slot 2 1, Ext 9, Slot 2 2] [50, 20, 20])"
  by (simp add: update_horizontal_spacers_def layout_frame_def titled_border_def leaf_heap_def
        is_horizontal_spacer_def is_line_seperator_def get_widget_advance_def widget_width_def
        vec_size_def set_horz_spacer_widths_def range_of_def set_width_def Let_def)


text \<open>
  On a line opened by wrapping, a spacer that directly follows the first widget takes no
  padding back, because the wrap resets \<^verbatim>\<open>pad_fix\<close> to zero after it was set for the widget.
  With interior width 100, padding 10 and widgets of advance 50: a widget followed by a
  spacer, as the first line, has used width 40 and the spacer gets 50; the same two widgets
  as a line opened by wrapping leave the spacer with 40.
\<close>

lemma wrapped_line_spacer_keeps_padding:
  "update_horizontal_spacers leaf_heap 4 (layout_frame [Ext 9, Slot 2 0] [0]) =
     Inr (layout_frame [Ext 9, Slot 2 0] [50]) \<and>
   spacer_lines leaf_heap 4 (layout_frame [Ext 9, Ext 8, Ext 7, Slot 2 0] [0]) =
     [(0, 2, 100), (2, 4, 50)] \<and>
   used_width leaf_heap 4 (layout_frame [Ext 9, Ext 8, Ext 7, Slot 2 0] [0]) [Ext 7, Slot 2 0] = 40 \<and>
   update_horizontal_spacers leaf_heap 4 (layout_frame [Ext 9, Ext 8, Ext 7, Slot 2 0] [0]) =
     Inr (layout_frame [Ext 9, Ext 8, Ext 7, Slot 2 0] [40])"
  by (simp add: update_horizontal_spacers_def spacer_lines_def layout_frame_def titled_border_def
        leaf_heap_def is_horizontal_spacer_def is_line_seperator_def get_widget_advance_def
        widget_width_def vec_size_def set_horz_spacer_widths_def range_of_def set_width_def
        used_width_def non_spacer_advances_def Let_def)


section \<open>Frame: running the spacer pass again\<close>

lemma same_shape_sym: "same_shape f g \<Longrightarrow> same_shape g f"
  by (simp add: same_shape_def)

lemma uhs_lines_shape:
  "same_shape f g \<Longrightarrow> uhs_lines h this g W itr rest st = uhs_lines h this f W itr rest st"
proof (induction rest arbitrary: itr st)
  case Nil
  show ?case by simp
next
  case (Cons w rest)
  obtain x pf lb where st: "st = (x, pf, lb)" by (cases st)
  note hs = same_shape_is_hs[OF Cons.prems, of w]
  have pad: "m_padding g = m_padding f" using Cons.prems by (simp add: same_shape_def)
  show ?case
  proof (cases "is_horizontal_spacer f w")
    case True
    with hs Cons.IH[OF Cons.prems] show ?thesis by (simp add: st)
  next
    case False
    with hs same_shape_advance[OF Cons.prems False, of h this] pad Cons.IH[OF Cons.prems]
    show ?thesis by (simp add: st Let_def)
  qed
qed

lemma spacer_lines_shape:
  "same_shape f g \<Longrightarrow> spacer_lines h this g = spacer_lines h this f"
  using uhs_lines_shape[of f g h this]
  by (auto simp: spacer_lines_def same_shape_def split: prod.splits)

lemma set_step_elem:
  "i < vec_size (m_horz_spacers f) \<Longrightarrow>
   v_elems (m_horz_spacers (if \<not> is_horizontal_spacer f a then f else set_width a w f)) ! i =
     (if a = Slot (v_data (m_horz_spacers f)) i
      then (v_elems (m_horz_spacers f) ! i)\<lparr>hs_width := w\<rparr>
      else v_elems (m_horz_spacers f) ! i)"
  by (cases a)
     (auto simp: is_horizontal_spacer_def set_width_def vec_size_def nth_list_update)

lemma set_loop_elem:
  "i < vec_size (m_horz_spacers f) \<Longrightarrow>
   v_elems (m_horz_spacers
      (foldl (\<lambda>g jtr. if \<not> is_horizontal_spacer g jtr then g else set_width jtr w g) f sg)) ! i =
     (if Slot (v_data (m_horz_spacers f)) i \<in> set sg
      then (v_elems (m_horz_spacers f) ! i)\<lparr>hs_width := w\<rparr>
      else v_elems (m_horz_spacers f) ! i)"
proof (induction sg arbitrary: f)
  case Nil
  show ?case by simp
next
  case (Cons a sg)
  let ?f1 = "if \<not> is_horizontal_spacer f a then f else set_width a w f"
  have sh: "same_shape f ?f1" by (simp add: set_width_shape)
  then have d: "v_data (m_horz_spacers ?f1) = v_data (m_horz_spacers f)"
    and n: "vec_size (m_horz_spacers ?f1) = vec_size (m_horz_spacers f)"
    by (simp_all add: same_shape_def vec_size_def)
  from Cons.prems n have "i < vec_size (m_horz_spacers ?f1)" by simp
  from Cons.IH[OF this] set_step_elem[OF Cons.prems, of a w] d
  show ?case by auto
qed

lemma apply_line_elem:
  assumes "same_shape f g" and "i < vec_size (m_horz_spacers f)"
  shows "v_elems (m_horz_spacers (apply_line W g l)) ! i =
     (if Slot (v_data (m_horz_spacers f)) i \<in> set (line_range (m_widgets f) l)
      then (v_elems (m_horz_spacers g) ! i)\<lparr>hs_width := line_width W f l\<rparr>
      else v_elems (m_horz_spacers g) ! i)"
proof -
  obtain b e x where l: "l = (b, e, x)" by (cases l)
  from assms(1) have eqs: "m_widgets g = m_widgets f" "m_padding g = m_padding f"
    "v_data (m_horz_spacers g) = v_data (m_horz_spacers f)"
    "vec_size (m_horz_spacers g) = vec_size (m_horz_spacers f)"
    by (simp_all add: same_shape_def vec_size_def)
  have hs: "is_horizontal_spacer g = is_horizontal_spacer f"
    using same_shape_is_hs[OF assms(1)] by auto
  from assms(2) eqs have ig: "i < vec_size (m_horz_spacers g)" by simp
  show ?thesis
  proof (cases "length (filter (is_horizontal_spacer f) (range_of (m_widgets f) b e)) = 0")
    case True
    have "is_horizontal_spacer f (Slot (v_data (m_horz_spacers f)) i)"
      using assms(2) by (auto simp: is_horizontal_spacer_def vec_size_def)
    with True have "Slot (v_data (m_horz_spacers f)) i \<notin> set (range_of (m_widgets f) b e)"
      by (auto simp: filter_empty_conv)
    with True show ?thesis
      by (simp add: l apply_line_def set_horz_spacer_widths_def line_range_def eqs hs)
  next
    case False
    with set_loop_elem[OF ig, of _ "range_of (m_widgets f) b e"] show ?thesis
      by (simp add: l apply_line_def set_horz_spacer_widths_def line_range_def line_width_def
            eqs hs Let_def)
  qed
qed

lemma fold_lines_elem:
  assumes "same_shape f g" and "i < vec_size (m_horz_spacers f)"
  shows "v_elems (m_horz_spacers (foldl (apply_line W) g ls)) ! i =
           (v_elems (m_horz_spacers g) ! i)
             \<lparr>hs_width := foldl (settle W f i) (hs_width (v_elems (m_horz_spacers g) ! i)) ls\<rparr>"
proof (induction ls rule: rev_induct)
  case Nil
  show ?case by simp
next
  case (snoc l ls)
  have shk: "same_shape f (foldl (apply_line W) g ls)"
    by (rule same_shape_trans[OF assms(1) foldl_apply_line_shape])
  from apply_line_elem[OF shk assms(2), of W l] snoc.IH show ?case
    by (simp add: settle_def)
qed

lemma settle_twice:
  "foldl (settle W f i) (foldl (settle W f i) w ls) ls = foldl (settle W f i) w ls"
proof -
  have any: "\<exists>l \<in> set ls. Slot (v_data (m_horz_spacers f)) i \<in> set (line_range (m_widgets f) l)
        \<Longrightarrow> foldl (settle W f i) w ls = foldl (settle W f i) w' ls" for w w' :: real
  proof (induction ls rule: rev_induct)
    case Nil
    then show ?case by simp
  next
    case (snoc l ls)
    show ?case
    proof (cases "Slot (v_data (m_horz_spacers f)) i \<in> set (line_range (m_widgets f) l)")
      case True
      then show ?thesis by (simp add: settle_def)
    next
      case False
      with snoc.prems snoc.IH show ?thesis by (auto simp: settle_def)
    qed
  qed
  have none: "\<forall>l \<in> set ls. Slot (v_data (m_horz_spacers f)) i \<notin> set (line_range (m_widgets f) l)
        \<Longrightarrow> foldl (settle W f i) w ls = w" for w :: real
    by (induction ls rule: rev_induct) (auto simp: settle_def)
  show ?thesis
  proof (cases "\<exists>l \<in> set ls. Slot (v_data (m_horz_spacers f)) i \<in> set (line_range (m_widgets f) l)")
    case True
    from any[OF True] show ?thesis .
  next
    case False
    then have "\<forall>l \<in> set ls. Slot (v_data (m_horz_spacers f)) i \<notin> set (line_range (m_widgets f) l)"
      by simp
    from none[OF this] show ?thesis by simp
  qed
qed

lemma fold_lines_twice:
  "foldl (apply_line W) (foldl (apply_line W) f ls) ls = foldl (apply_line W) f ls"
proof -
  let ?g = "foldl (apply_line W) f ls"
  let ?k = "foldl (apply_line W) ?g ls"
  have sg: "same_shape f ?g" by (rule foldl_apply_line_shape)
  have sk: "same_shape ?g ?k" by (rule foldl_apply_line_shape)
  have n: "length (v_elems (m_horz_spacers ?k)) = length (v_elems (m_horz_spacers ?g))"
    using sk by (simp add: same_shape_def)
  have "v_elems (m_horz_spacers ?k) ! i = v_elems (m_horz_spacers ?g) ! i"
    if "i < length (v_elems (m_horz_spacers ?g))" for i
  proof -
    from that sg have i: "i < vec_size (m_horz_spacers f)"
      by (simp add: same_shape_def vec_size_def)
    from fold_lines_elem[OF sg i, of W ls] fold_lines_elem[OF same_shape_refl i, of W ls]
    show ?thesis by (simp add: settle_twice)
  qed
  with n have "v_elems (m_horz_spacers ?k) = v_elems (m_horz_spacers ?g)"
    by (intro nth_equalityI) simp_all
  with sk have "m_horz_spacers ?k = m_horz_spacers ?g"
    by (intro vec.equality) (simp_all add: same_shape_def)
  with sk show ?thesis
    by (intro Frame.equality) (simp_all add: same_shape_def)
qed

text \<open>
  The spacer pass is idempotent: when it returns, running it again on the frame it left
  returns the same frame. The lines depend on the widgets that are not spacers only, and a
  line gives its spacers a width that does not depend on the width they had.
\<close>

theorem update_horizontal_spacers_idempotent:
  assumes "update_horizontal_spacers h this f = Inr f'"
  shows "update_horizontal_spacers h this f' = Inr f'"
proof -
  let ?W = "fb_width_available_for_widgets (m_border f)"
  from assms have pre: "0 \<le> ?W" "Null \<notin> set (m_widgets f)"
    by (auto simp: update_horizontal_spacers_def Let_def split: if_splits)
  from update_horizontal_spacers_lines[OF pre, of h this] assms
  have f': "f' = foldl (apply_line ?W) f (spacer_lines h this f)" by simp
  then have sh: "same_shape f f'" by (simp add: foldl_apply_line_shape)
  then have eqs: "fb_width_available_for_widgets (m_border f') = ?W" "m_widgets f' = m_widgets f"
    by (simp_all add: same_shape_def)
  from update_horizontal_spacers_lines[of f' h this] pre eqs spacer_lines_shape[OF sh, of h this]
  have "update_horizontal_spacers h this f' =
          Inr (foldl (apply_line ?W) f' (spacer_lines h this f))" by simp
  then show ?thesis by (simp add: f' fold_lines_twice)
qed

theorem update_horizontal_spacers_idempotent_witness:
  "update_horizontal_spacers leaf_heap 4
     (layout_frame [Ext 9, Slot 2 0, Sep 4, Slot 2 1, Ext 9, Slot 2 2] [50, 20, 20]) =
   Inr (layout_frame [Ext 9, Slot 2 0, Sep 4, Slot 2 1, Ext 9, Slot 2 2] [50, 20, 20])"
  using update_horizontal_spacers_idempotent [OF layout_frame_update] .

section \<open>ProgressBar: the fill amount\<close>

text \<open>
  What the guard of \<^verbatim>\<open>set_fill_amount\<close> does for a value that compares with its bounds:
  below 0 or above 1 (1.5, say) the call raises the range error and leaves the bar, its
  stored fill amount included, as it was; from 0 to 1 it raises nothing, stores the value,
  keeps the outer rectangle's size and resizes the inner front rectangle to the padded
  interior width scaled by the new fill amount.
\<close>

lemma set_fill_amount_guard:
  "(flt v (Fin 0) \<or> flt (Fin 1) v \<longrightarrow>
      set_fill_amount v pb = (Some (out_of_range FILL_OUT_OF_RANGE_MSG), pb)) \<and>
   (fle (Fin 0) v \<and> fle v (Fin 1) \<longrightarrow>
      fst (set_fill_amount v pb) = None \<and>
      m_fill_amount (snd (set_fill_amount v pb)) = v \<and>
      pb_width (snd (set_fill_amount v pb)) = pb_width pb \<and>
      pb_height (snd (set_fill_amount v pb)) = pb_height pb \<and>
      dr_width (pb_m_inner_front (snd (set_fill_amount v pb))) =
        fmul (fsub (pb_width pb) (fmul (active_padding pb) (Fin 2))) v \<and>
      dr_height (pb_m_inner_front (snd (set_fill_amount v pb))) =
        fsub (pb_height pb) (fmul (active_padding pb) (Fin 2)))"
  by (cases v)
     (auto simp: set_fill_amount_def fgt_def pb_set_size_def update_sizes_using_outer_def
        dr_set_size_def pb_width_def pb_height_def active_padding_def Let_def)

lemma set_fill_amount_example:
  "set_fill_amount (Fin (3 / 2)) example_bar =
     (Some (out_of_range FILL_OUT_OF_RANGE_MSG), example_bar) \<and>
   m_fill_amount (snd (set_fill_amount (Fin (3 / 2)) example_bar)) = Fin (1 / 4) \<and>
   fst (set_fill_amount (Fin (1 / 2)) example_bar) = None \<and>
   m_fill_amount (snd (set_fill_amount (Fin (1 / 2)) example_bar)) = Fin (1 / 2)"
  using set_fill_amount_guard [of "Fin (3 / 2)" example_bar]
        set_fill_amount_guard [of "Fin (1 / 2)" example_bar]
  by (simp add: example_bar_def)

text \<open>
  C8. A not-a-number is outside [0, 1], yet \<^verbatim>\<open>ProgressBar::set_fill_amount\<close> does not
  fail on it: both comparisons of the guard are false, so the call raises nothing, the
  not-a-number replaces the stored fill amount, and the inner front rectangle is resized to
  a not-a-number width.
\<close>

theorem set_fill_amount_stores_NaN:
  "fst (set_fill_amount NaN pb) = None \<and>
   m_fill_amount (snd (set_fill_amount NaN pb)) = NaN \<and>
   dr_width (pb_m_inner_front (snd (set_fill_amount NaN pb))) = NaN"
  by (simp add: set_fill_amount_def fgt_def pb_set_size_def update_sizes_using_outer_def
        dr_set_size_def pb_width_def pb_height_def Let_def fmul_NaN)

section \<open>Button: the size guard\<close>

text \<open>
  What the guard of \<^verbatim>\<open>Button::set_size\<close> does for dimensions that compare with zero: if
  one of them is zero or negative the call raises the invalid-argument error and the button
  is what it was before the call; if both are positive it raises nothing and the outer
  rectangle takes the new size.
\<close>

lemma btn_set_size_guard:
  "(fle w (Fin 0) \<or> fle h (Fin 0) \<longrightarrow>
      btn_set_size w h b = (Some (invalid_argument k_button_size_msg), b)) \<and>
   (flt (Fin 0) w \<and> flt (Fin 0) h \<longrightarrow>
      fst (btn_set_size w h b) = None \<and>
      btn_width (snd (btn_set_size w h b)) = w \<and>
      btn_height (snd (btn_set_size w h b)) = h)"
  by (cases w; cases h)
     (auto simp: btn_set_size_def set_button_frame_size_def set_size_back_def
        on_size_changed_def dr_set_size_def btn_width_def btn_height_def Let_def)

lemma btn_set_size_example:
  "btn_set_size (Fin 0) (Fin 10) example_button =
     (Some (invalid_argument k_button_size_msg), example_button) \<and>
   btn_set_size (Fin 10) (Fin (- 1)) example_button =
     (Some (invalid_argument k_button_size_msg), example_button) \<and>
   fst (btn_set_size (Fin 10) (Fin 10) example_button) = None"
  using btn_set_size_guard [of "Fin 0" "Fin 10" example_button]
        btn_set_size_guard [of "Fin 10" "Fin (- 1)" example_button]
        btn_set_size_guard [of "Fin 10" "Fin 10" example_button]
  by simp

text \<open>
  C10. \<^verbatim>\<open>Button::set_size\<close> does not throw for every pair that is not positive in both
  components: a not-a-number is not greater than zero, yet the comparison \<^verbatim>\<open><= 0.f\<close> is
  false for it, so a call with a not-a-number width or height raises nothing and the
  button's outer rectangle takes the not-a-number as its size.
\<close>

theorem btn_set_size_accepts_NaN:
  "fst (btn_set_size NaN (Fin 10) b) = None \<and>
   btn_width (snd (btn_set_size NaN (Fin 10) b)) = NaN \<and>
   fst (btn_set_size (Fin 10) NaN b) = None \<and>
   btn_height (snd (btn_set_size (Fin 10) NaN b)) = NaN"
  by (simp add: btn_set_size_def set_button_frame_size_def set_size_back_def
        on_size_changed_def dr_set_size_def btn_width_def btn_height_def Let_def)

end
